theory Spec2Isabelle
  imports Complex_Main
begin

section \<open>Python values the encoder relies on\<close>

text \<open>
  The program is Python. Every \<^verbatim>\<open>raise\<close> the modelled code can reach is a
  value of \<open>py_error\<close>; a function that can raise returns \<open>py_error + 'a\<close>.
\<close>

datatype py_error = IndexError | ValueError | KeyError | AssertionError

definition bind_err :: "py_error + 'a \<Rightarrow> ('a \<Rightarrow> py_error + 'b) \<Rightarrow> py_error + 'b" where
  "bind_err x f = (case x of Inl e \<Rightarrow> Inl e | Inr v \<Rightarrow> f v)"

text \<open>A \<^verbatim>\<open>for\<close> loop whose body can raise: the first error stops it.\<close>

primrec map_err :: "('a \<Rightarrow> py_error + 'b) \<Rightarrow> 'a list \<Rightarrow> py_error + 'b list" where
  "map_err f [] = Inr []"
| "map_err f (x # xs) =
     (case f x of
        Inl e \<Rightarrow> Inl e
      | Inr y \<Rightarrow> (case map_err f xs of Inl e \<Rightarrow> Inl e | Inr ys \<Rightarrow> Inr (y # ys)))"

text \<open>
  \<^verbatim>\<open>xs[i]\<close> on a list of length \<open>n\<close>: a negative index counts from the end,
  anything outside \<open>-n..n-1\<close> raises IndexError. The result is the position read.
\<close>

definition py_index :: "nat \<Rightarrow> int \<Rightarrow> py_error + nat" where
  "py_index n i =
     (if 0 \<le> i \<and> i < int n then Inr (nat i)
      else if - int n \<le> i \<and> i < 0 then Inr (nat (int n + i))
      else Inl IndexError)"

definition py_nth :: "'a list \<Rightarrow> int \<Rightarrow> py_error + 'a" where
  "py_nth xs i = (case py_index (length xs) i of Inl e \<Rightarrow> Inl e | Inr k \<Rightarrow> Inr (xs ! k))"

subsection \<open>Strings\<close>

text \<open>
  \<^verbatim>\<open>s.split(sep)\<close> for a non-empty separator: cut at every leftmost occurrence,
  keeping empty pieces. \<open>acc\<close> is the piece being read. Every call site of the source
  passes a non-empty separator (a literal, or \<^verbatim>\<open>'c' + clock_num\<close>).
\<close>

fun split_from :: "string \<Rightarrow> string \<Rightarrow> string \<Rightarrow> string list" where
  "split_from sep acc [] = [acc]"
| "split_from sep acc (c # cs) =
     (if take (length sep) (c # cs) = sep
      then acc # split_from sep [] (drop (length sep - 1) cs)
      else split_from sep (acc @ [c]) cs)"

definition split :: "string \<Rightarrow> string \<Rightarrow> string list" where
  "split s sep = split_from sep [] s"

text \<open>\<^verbatim>\<open>str(n)\<close> for a natural number.\<close>

definition digit_char :: "nat \<Rightarrow> char" where
  "digit_char d = char_of (48 + d)"

fun str_nat :: "nat \<Rightarrow> string" where
  "str_nat n = (if n < 10 then [digit_char n] else str_nat (n div 10) @ [digit_char (n mod 10)])"

declare str_nat.simps [simp del]

text \<open>
  \<^verbatim>\<open>float(s)\<close> on the decimal literals guards and invariants are written with:
  digits, optionally a point and more digits. Python accepts more spellings (a sign,
  an exponent, blanks, underscores, inf, nan); here they are ValueError.
\<close>

definition is_digit :: "char \<Rightarrow> bool" where
  "is_digit c = ((48::nat) \<le> of_char c \<and> of_char c \<le> (57::nat))"

definition digits_val :: "string \<Rightarrow> nat" where
  "digits_val s = foldl (\<lambda>a c. 10 * a + (of_char c - 48)) (0::nat) s"

definition py_float :: "string \<Rightarrow> py_error + real" where
  "py_float s =
     (case split s ''.'' of
        [a] \<Rightarrow> if a \<noteq> [] \<and> list_all is_digit a then Inr (real (digits_val a)) else Inl ValueError
      | [a, b] \<Rightarrow>
          if (a \<noteq> [] \<or> b \<noteq> []) \<and> list_all is_digit a \<and> list_all is_digit b
          then Inr (real (digits_val a) + real (digits_val b) / 10 ^ length b)
          else Inl ValueError
      | _ \<Rightarrow> Inl ValueError)"

section \<open>Guards: parseConstraints\<close>

text \<open>
  \<^verbatim>\<open>
  def parseConstraints(self, constraint_original):
      parsed_constraints = []
      constraints = constraint_original.copy()
      while constraints:
          constraint = constraints.pop(0)
          clock_num = constraint.split("c")[1].split(">")[0]
          clock = 'c' + clock_num
          parts = constraint.split(clock)
          for part in parts:
              if part:
                  if part[0] == ">":
                      item = clock + part
                  else:
                      item = part + clock
                  parsed_constraints.append(item)
      return parsed_constraints
  \<close>
  The \<^verbatim>\<open>while\<close> loop pops the head of a copy of the list: recursion on the list.
\<close>

definition parse_parts :: "string \<Rightarrow> string list \<Rightarrow> string list" where
  "parse_parts clock parts =
     concat (map (\<lambda>part. if part = [] then []
                          else if hd part = CHR ''>'' then [clock @ part] else [part @ clock]) parts)"

definition parse_one :: "string \<Rightarrow> py_error + string list" where
  "parse_one constraint =
     (case py_nth (split constraint ''c'') 1 of
        Inl e \<Rightarrow> Inl e
      | Inr after_c \<Rightarrow>
          (case py_nth (split after_c ''>'') 0 of
             Inl e \<Rightarrow> Inl e
           | Inr clock_num \<Rightarrow>
               (let clock = ''c'' @ clock_num
                in Inr (parse_parts clock (split constraint clock)))))"

primrec parseConstraints :: "string list \<Rightarrow> py_error + string list" where
  "parseConstraints [] = Inr []"
| "parseConstraints (constraint # constraints) =
     (case parse_one constraint of
        Inl e \<Rightarrow> Inl e
      | Inr items \<Rightarrow>
          (case parseConstraints constraints of
             Inl e \<Rightarrow> Inl e
           | Inr rest \<Rightarrow> Inr (items @ rest)))"


section \<open>The input header: Parser._parse_header\<close>

text \<open>
  \<^verbatim>\<open>int(s)\<close> on an optionally signed string of digits; any other spelling is
  ValueError here (Python also accepts blanks and underscores).
\<close>

definition py_int :: "string \<Rightarrow> py_error + int" where
  "py_int str =
     (case str of
        [] \<Rightarrow> Inl ValueError
      | c # cs \<Rightarrow>
          if c = CHR ''-'' \<and> cs \<noteq> [] \<and> list_all is_digit cs then Inr (- int (digits_val cs))
          else if c = CHR ''+'' \<and> cs \<noteq> [] \<and> list_all is_digit cs then Inr (int (digits_val cs))
          else if list_all is_digit (c # cs) then Inr (int (digits_val (c # cs)))
          else Inl ValueError)"

text \<open>
  \<^verbatim>\<open>parts[k].split("{")[1].split("}")[0].split(",")\<close>: the names between the
  braces of the k-th blank-separated field of the header.
\<close>

definition braced_names :: "string list \<Rightarrow> int \<Rightarrow> py_error + string list" where
  "braced_names parts k =
     bind_err (py_nth parts k) (\<lambda>field.
     bind_err (py_nth (split field ''{'') 1) (\<lambda>inner.
     bind_err (py_nth (split inner ''}'') 0) (\<lambda>names.
     Inr (split names '',''))))"

text \<open>
  parsert.py, the parser the encoder imports:
  \<^verbatim>\<open>
  event_dict = defaultdict(int)
  for i, key in enumerate(observable):
      event_dict[key] = i + 3
  for key in unobservable:
      event_dict[key] = 2
  \<close>
\<close>

definition parsert_event_dict :: "string list \<Rightarrow> string list \<Rightarrow> (string \<rightharpoonup> int)" where
  "parsert_event_dict observable unobservable =
     fold (\<lambda>key d. d(key \<mapsto> 2)) unobservable
       (fold (\<lambda>(i, key) d. d(key \<mapsto> int i + 3)) (enumerate 0 observable) Map.empty)"

text \<open>
  generate_automaton.py, the parser of the visualizer:
  \<^verbatim>\<open>
  event_dict = defaultdict(lambda: "unknown")
  event_dict["f"] = 1
  for i, key in enumerate(unobservable):
      event_dict[key] = i + 2
  for i, key in enumerate(observable):
      event_dict[key] = i + 2 + len(unobservable)
  \<close>
\<close>

definition generate_automaton_event_dict :: "string list \<Rightarrow> string list \<Rightarrow> (string \<rightharpoonup> int)" where
  "generate_automaton_event_dict observable unobservable =
     fold (\<lambda>(i, key) d. d(key \<mapsto> int i + 2 + int (length unobservable))) (enumerate 0 observable)
       (fold (\<lambda>(i, key) d. d(key \<mapsto> int i + 2)) (enumerate 0 unobservable)
          (Map.empty(''f'' \<mapsto> 1)))"

text \<open>
  Both \<^verbatim>\<open>_parse_header\<close> functions read the header the same way and differ only in
  the dictionary they build; the result is
  \<open>(initState, bound, delta, event_dict, clockList)\<close>.
\<close>

definition parse_header_with ::
  "(string list \<Rightarrow> string list \<Rightarrow> (string \<rightharpoonup> int)) \<Rightarrow> string \<Rightarrow>
   py_error + (int \<times> int \<times> int \<times> (string \<rightharpoonup> int) \<times> string list)" where
  "parse_header_with mk_dict header_line =
     (let parts = split header_line '' '' in
      bind_err (bind_err (py_nth parts 1) py_int) (\<lambda>initState.
      bind_err (bind_err (py_nth parts 3) py_int) (\<lambda>bound.
      bind_err (bind_err (py_nth parts 5) py_int) (\<lambda>delta.
      bind_err (braced_names parts 6) (\<lambda>observable.
      bind_err (braced_names parts 7) (\<lambda>unobservable.
      bind_err (braced_names parts 9) (\<lambda>clockList.
      Inr (initState, bound, delta, mk_dict observable unobservable, clockList))))))))"

definition parsert_parse_header ::
  "string \<Rightarrow> py_error + (int \<times> int \<times> int \<times> (string \<rightharpoonup> int) \<times> string list)" where
  "parsert_parse_header = parse_header_with parsert_event_dict"

definition generate_automaton_parse_header ::
  "string \<Rightarrow> py_error + (int \<times> int \<times> int \<times> (string \<rightharpoonup> int) \<times> string list)" where
  "generate_automaton_parse_header = parse_header_with generate_automaton_event_dict"

text \<open>
  The event id of a transition line. parsert.py:
  \<^verbatim>\<open>event = 1 if event == "f" else event_dict[event]\<close>, a missing key reading the
  default 0.
\<close>

definition parsert_event_id :: "(string \<rightharpoonup> int) \<Rightarrow> string \<Rightarrow> int" where
  "parsert_event_id event_dict event =
     (if event = ''f'' then 1 else (case event_dict event of None \<Rightarrow> 0 | Some v \<Rightarrow> v))"

section \<open>The automaton\<close>

text \<open>
  A state's invariant is the Python int 1 (no invariant) or a string of upper bounds.
  State defines no \<^verbatim>\<open>__eq__\<close>: \<^verbatim>\<open>==\<close> on states is object identity. The
  automaton keeps one State object per id in \<open>mapState\<close> and every transition takes
  its states from there, so two states of transitions are the same object exactly when
  their ids are equal.
\<close>

datatype py_invariant = InvInt int | InvStr string

record state =
  id_state :: int
  invariant :: py_invariant

definition same_state :: "state \<Rightarrow> state \<Rightarrow> bool" where
  "same_state a b = (id_state a = id_state b)"

record transition =
  source :: state
  target :: state
  event :: int
  guard :: "string list"
  reset :: "int list"

text \<open>
  The fields of Automaton the encoder reads. (The counts of observable and unobservable
  events, the invariant dictionary and the diagnoser sets are stored and never read by
  the encoder.)
\<close>

record automaton =
  mapState :: "int \<rightharpoonup> state"
  transitionList :: "transition list"
  initialStateId :: int
  maxLabel :: int
  clockNum :: nat

definition addState :: "automaton \<Rightarrow> int \<Rightarrow> py_invariant \<Rightarrow> automaton" where
  "addState A stateId inv' =
     (let A1 = (if stateId > maxLabel A then A\<lparr>maxLabel := stateId\<rparr> else A)
      in if stateId \<notin> dom (mapState A1)
         then A1\<lparr>mapState := (mapState A1)(stateId \<mapsto> \<lparr>id_state = stateId, invariant = inv'\<rparr>)\<rparr>
         else A1)"

definition appendTransition ::
  "automaton \<Rightarrow> int \<Rightarrow> int \<Rightarrow> int \<Rightarrow> string list \<Rightarrow> int list \<Rightarrow> py_error + automaton" where
  "appendTransition A sourceId finalId ev g resetList =
     (case mapState A sourceId of
        None \<Rightarrow> Inl AssertionError
      | Some src \<Rightarrow>
          (case mapState A finalId of
             None \<Rightarrow> Inl AssertionError
           | Some tgt \<Rightarrow>
               Inr (A\<lparr>transitionList := transitionList A @
                     [\<lparr>source = src, target = tgt, event = ev, guard = g, reset = resetList\<rparr>]\<rparr>)))"

text \<open>
  The constructor adds state -1 and, at index 0 of the transition list, the self-loop
  \<^verbatim>\<open>appendTransition(-1, -1, 0, ['c'+str(i+1)+">=0" for i in range(clockNum)], [])\<close>.
\<close>

definition Automaton_init :: "int \<Rightarrow> nat \<Rightarrow> py_error + automaton" where
  "Automaton_init initialStateId' clockNum' =
     appendTransition
       (addState \<lparr>mapState = Map.empty, transitionList = [], initialStateId = initialStateId',
                  maxLabel = -1, clockNum = clockNum'\<rparr> (-1) (InvInt 1))
       (-1) (-1) 0 (map (\<lambda>i. ''c'' @ str_nat (i + 1) @ ''>=0'') [0..<clockNum']) []"

definition getNbTransition :: "automaton \<Rightarrow> nat" where
  "getNbTransition A = length (transitionList A)"

definition getMaxStateLabel :: "automaton \<Rightarrow> int" where
  "getMaxStateLabel A = maxLabel A"

definition getInitialState :: "automaton \<Rightarrow> py_error + state" where
  "getInitialState A =
     (case mapState A (initialStateId A) of None \<Rightarrow> Inl KeyError | Some st \<Rightarrow> Inr st)"

text \<open>
  What \<^verbatim>\<open>Parser._add_transitions_to_automaton\<close> does for one parsed transition:
  both states are added with their invariants, then the transition is appended.
\<close>

definition add_parsed_transition ::
  "automaton \<Rightarrow> int \<Rightarrow> py_invariant \<Rightarrow> int \<Rightarrow> py_invariant \<Rightarrow> int \<Rightarrow> string list \<Rightarrow> int list \<Rightarrow>
   py_error + automaton" where
  "add_parsed_transition A sourceState sourceState_inv finalState finalState_inv ev g resetList =
     appendTransition (addState (addState A sourceState sourceState_inv) finalState finalState_inv)
       sourceState finalState ev g resetList"


section \<open>Solver variables and constraints\<close>

text \<open>
  A model of the solver gives a value to every variable the encoder declares. Each Python
  list of Z3 variables is a function of its index (\<^verbatim>\<open>self.faultyPath[pos]\<close> is
  \<open>faultyPath m pos\<close>); the per-clock lists of lists take the clock first. The names
  the variables are declared under are pairwise distinct, so no two of them alias.
  Int variables are \<open>int\<close>, Real variables \<open>real\<close>, Bool variables \<open>bool\<close>.
  The reset flags are Bool at step 0 (\<^verbatim>\<open>initialize_z3_variables\<close>) and Int from
  step 1 on (\<^verbatim>\<open>incVariableList\<close>), where z3 reads the Python \<^verbatim>\<open>True\<close> and
  \<^verbatim>\<open>False\<close> they are compared with as 1 and 0: they are \<open>int\<close> here, the Bool
  ones restricted to 0 and 1.
\<close>

record model =
  faultyPath :: "nat \<Rightarrow> int"
  normalPath :: "nat \<Rightarrow> int"
  lastlyActiveFaultyPath :: "nat \<Rightarrow> int"
  lastlyActiveNormalPath :: "nat \<Rightarrow> int"
  idTransitionFaultyPath :: "nat \<Rightarrow> int"
  idTransitionNormalPath :: "nat \<Rightarrow> int"
  nopFaultyPath :: "nat \<Rightarrow> bool"
  nopNormalPath :: "nat \<Rightarrow> bool"
  faultOccursByThePast :: "nat \<Rightarrow> bool"
  checkSynchro :: "nat \<Rightarrow> bool"
  cptFaultOccursByThePast :: "nat \<Rightarrow> real"
  globalClockFaultyPath :: "nat \<Rightarrow> real"
  globalClockNormalPath :: "nat \<Rightarrow> real"
  delayClockFaultyPath :: "nat \<Rightarrow> real"
  delayClockNormalPath :: "nat \<Rightarrow> real"
  clockConstraintFaultyPath :: "nat \<Rightarrow> bool"
  clockConstraintNormalPath :: "nat \<Rightarrow> bool"
  clockValueFaultyPath :: "nat \<Rightarrow> nat \<Rightarrow> real"
  clockValueNormalPath :: "nat \<Rightarrow> nat \<Rightarrow> real"
  sourceInvFaultyPath :: "nat \<Rightarrow> nat \<Rightarrow> bool"
  sourceInvNormalPath :: "nat \<Rightarrow> nat \<Rightarrow> bool"
  finalInvFaultyPath :: "nat \<Rightarrow> nat \<Rightarrow> bool"
  finalInvNormalPath :: "nat \<Rightarrow> nat \<Rightarrow> bool"
  lengthFaultyPath :: "nat \<Rightarrow> int"
  lengthNormalPath :: "nat \<Rightarrow> int"
  resetConstraintFaultyPath :: "nat \<Rightarrow> nat \<Rightarrow> int"
  resetConstraintNormalPath :: "nat \<Rightarrow> nat \<Rightarrow> int"
  bound :: int
  delta :: real
  labelTransition :: "nat \<Rightarrow> int"
  isObservableTransition :: "nat \<Rightarrow> bool"
  assumD :: bool
  assumB :: "nat \<Rightarrow> bool"
  assumF :: "nat \<Rightarrow> bool"
  assumFO :: "nat \<Rightarrow> bool"

type_synonym constr = "model \<Rightarrow> bool"

text \<open>z3's \<^verbatim>\<open>And\<close> and \<^verbatim>\<open>Or\<close> of a list, and a model satisfying a list of assertions.\<close>

definition z3_And :: "constr list \<Rightarrow> constr" where
  "z3_And cs = (\<lambda>m. list_all (\<lambda>c. c m) cs)"

definition z3_Or :: "constr list \<Rightarrow> constr" where
  "z3_Or cs = (\<lambda>m. list_ex (\<lambda>c. c m) cs)"

definition holds :: "model \<Rightarrow> constr list \<Rightarrow> bool" where
  "holds m cs = list_all (\<lambda>c. c m) cs"


section \<open>The encoder: class Z3Model of suggestion.py\<close>

text \<open>
  The fields of Z3Model that the constraints depend on. \<open>s\<close> is the list of
  assertions added to the solver so far (\<^verbatim>\<open>self.s.add\<close> appends, nothing is ever
  retracted). The lists of Z3 variables only matter through their lengths:
  \<open>lenPath\<close> is \<^verbatim>\<open>len(self.faultyPath)\<close>, the length of every per-step list
  (the delay, clock-value and fault-counter lists hold one element more), and
  \<open>lenObservable\<close> is \<^verbatim>\<open>len(self.isObservableTransition)\<close>.
\<close>

record Z3Model =
  automaton :: automaton
  BOUND :: int
  DELTA :: int
  initState :: int
  nextTransition :: "nat list list"
  idxAssum :: nat
  maxLabelTransition :: int
  maxLabelState :: int
  resetTransition :: "bool list list"
  clockTransition :: "string list list"
  s :: "constr list"
  lenPath :: nat
  lenObservable :: nat

definition NOP :: int where "NOP = 0"
definition FAULT :: int where "FAULT = 1"
definition NO_OBS :: int where "NO_OBS = 2"
definition NOP_TRANSITION :: nat where "NOP_TRANSITION = 0"

subsection \<open>setup_transitions\<close>

text \<open>
  \<^verbatim>\<open>
  for i in range(self.automaton.getNbTransition()):
      for c in self.automaton.getTransitionAt(i).getResetList():
          self.resetTransition[c][i] = True
  \<close>
  \<open>c\<close> is an int read from the input: Python's indexing applies to it.
\<close>

definition set_reset :: "nat \<Rightarrow> int \<Rightarrow> bool list list \<Rightarrow> py_error + bool list list" where
  "set_reset i c rt =
     (case py_index (length rt) c of
        Inl e \<Rightarrow> Inl e
      | Inr k \<Rightarrow> Inr (rt[k := (rt ! k)[i := True]]))"

primrec fold_err :: "('a \<Rightarrow> 'b \<Rightarrow> py_error + 'b) \<Rightarrow> 'a list \<Rightarrow> 'b \<Rightarrow> py_error + 'b" where
  "fold_err f [] acc = Inr acc"
| "fold_err f (x # xs) acc = (case f x acc of Inl e \<Rightarrow> Inl e | Inr acc' \<Rightarrow> fold_err f xs acc')"

definition build_resetTransition :: "automaton \<Rightarrow> py_error + bool list list" where
  "build_resetTransition A =
     fold_err (\<lambda>i rt. fold_err (set_reset i) (reset (transitionList A ! i)) rt)
       [0..<getNbTransition A]
       (replicate (clockNum A) (replicate (getNbTransition A) False))"

text \<open>
  \<^verbatim>\<open>
  def setup_transitions(self):
      self.nextTransition = [[self.NOP_TRANSITION] for _ in range(self.automaton.getNbTransition())]
      self.maxLabelState = self.automaton.getMaxStateLabel()
      transitionList = self.automaton.getTransitionList()
      for i in range(self.automaton.getNbTransition()):
          for j in range(self.automaton.getNbTransition()):
              if transitionList[i].getFinalState() == transitionList[j].getSourceState():
                  self.nextTransition[i].append(j)
      self.maxLabelState += 1
      self.automaton.addState(self.maxLabelState, 1)
      self.automaton.appendTransition(self.maxLabelState, self.initState, 2, [
          f'c{i+1}=0' for i in range(self.automaton.clockNum)], list(range(self.automaton.clockNum)))
      self.nextTransition.append([self.NOP_TRANSITION])
      self.nextTransition[-1] += [idx for idx in range(
          self.automaton.getNbTransition()) if transitionList[idx].getSourceState() == self.automaton.getInitialState()]
      self.labelTransition = [Int(f"statusTransition_{i+1}")
                              for i in range(self.automaton.getNbTransition())]
      self.resetTransition = ...
      self.clockTransition = [t.getGuard() for t in self.automaton.getTransitionList()]
      for t in self.automaton.getTransitionList():
          if t.getEventId() > self.maxLabelTransition:
              self.maxLabelTransition = t.getEventId()
  \<close>
  \<^verbatim>\<open>transitionList\<close> is the automaton's own list object, so after the append it
  holds the new transition too.
\<close>

definition setup_transitions :: "Z3Model \<Rightarrow> py_error + Z3Model" where
  "setup_transitions z =
     (let A = automaton z;
          tl = transitionList A;
          next0 = map (\<lambda>i. NOP_TRANSITION #
                     filter (\<lambda>j. same_state (target (tl ! i)) (source (tl ! j))) [0..<getNbTransition A])
                   [0..<getNbTransition A];
          mls = getMaxStateLabel A + 1
      in bind_err (appendTransition (addState A mls (InvInt 1)) mls (initState z) 2
                     (map (\<lambda>i. ''c'' @ str_nat (i + 1) @ ''=0'') [0..<clockNum A])
                     (map int [0..<clockNum A])) (\<lambda>A2.
         bind_err (getInitialState A2) (\<lambda>init.
         bind_err (build_resetTransition A2) (\<lambda>rt.
         Inr (z\<lparr>automaton := A2,
                nextTransition := next0 @
                  [NOP_TRANSITION #
                   filter (\<lambda>idx. same_state (source (transitionList A2 ! idx)) init)
                     [0..<getNbTransition A2]],
                maxLabelState := mls,
                resetTransition := rt,
                clockTransition := map guard (transitionList A2),
                maxLabelTransition :=
                  foldl (\<lambda>mx t. if event t > mx then event t else mx)
                    (maxLabelTransition z) (transitionList A2)\<rparr>)))))"

subsection \<open>Guards and invariants as constraints\<close>

text \<open>
  \<^verbatim>\<open>transConstraints(constraint_single, idx, path_type)\<close>. One atom: the flag
  (1: \<open>></\<close>, 2: \<open>>=\<close>, 3: \<open><\<close>, 4: \<open><=\<close>), the text of the number and the name of the
  clock; then \<^verbatim>\<open>float(number)\<close>; then the first clock of
  \<^verbatim>\<open>["c" + str(i + 1) for i in range(clockNum)]\<close> with that name gives the
  constraint, and an unknown name gives none.
\<close>

definition atom_fields :: "string \<Rightarrow> py_error + (nat \<times> string \<times> string)" where
  "atom_fields constraint =
     (let parts = split constraint ''='';
          p0 = hd parts
      in if p0 = [] then Inl IndexError
         else if hd p0 = CHR ''c'' then
           (if length parts = 1
            then bind_err (py_nth (split p0 ''>'') 1) (\<lambda>number.
                 Inr (1, number, hd (split p0 ''>'')))
            else Inr (2, parts ! 1, hd (split p0 ''>'')))
         else
           (if length parts = 1
            then bind_err (py_nth (split p0 ''>'') 1) (\<lambda>clock.
                 Inr (3, hd (split p0 ''>''), clock))
            else Inr (4, hd (split p0 ''>''), parts ! 1)))"

definition clock_value :: "string \<Rightarrow> model \<Rightarrow> nat \<Rightarrow> nat \<Rightarrow> real" where
  "clock_value path_type m j idx =
     (if path_type = ''f'' then clockValueFaultyPath m j idx else clockValueNormalPath m j idx)"

definition trans_atom :: "nat \<Rightarrow> nat \<Rightarrow> string \<Rightarrow> string \<Rightarrow> py_error + constr list" where
  "trans_atom clockNum' idx path_type constraint =
     bind_err (atom_fields constraint) (\<lambda>(flag, number_text, clock).
     bind_err (py_float number_text) (\<lambda>number.
       (case List.find (\<lambda>j. clock = ''c'' @ str_nat (j + 1)) [0..<clockNum'] of
          None \<Rightarrow> Inr []
        | Some j \<Rightarrow>
            Inr [\<lambda>m. if flag = 1 then clock_value path_type m j idx > number
                     else if flag = 2 then clock_value path_type m j idx \<ge> number
                     else if flag = 3 then clock_value path_type m j idx < number
                     else clock_value path_type m j idx \<le> number])))"

definition transConstraints :: "nat \<Rightarrow> string list \<Rightarrow> nat \<Rightarrow> string \<Rightarrow> py_error + constr list" where
  "transConstraints clockNum' constraint_single idx path_type =
     bind_err (map_err (trans_atom clockNum' idx path_type) constraint_single) (\<lambda>css.
     Inr (concat css))"

text \<open>
  \<^verbatim>\<open>And(self.transConstraints(self.parseConstraints(self.clockTransition[j]), pos, 'f'))\<close>:
  the clock constraint of a transition's guard at a step.
\<close>

definition guard_constraint :: "nat \<Rightarrow> string list \<Rightarrow> nat \<Rightarrow> string \<Rightarrow> py_error + constr" where
  "guard_constraint clockNum' g pos path_type =
     bind_err (parseConstraints g) (\<lambda>parsed.
     bind_err (transConstraints clockNum' parsed pos path_type) (\<lambda>cs.
     Inr (z3_And cs)))"

text \<open>
  \<^verbatim>\<open>
  def parseInv(self, invariant, clock, pos, path_type):
      if isinstance(invariant, int):
          if invariant == 1:
              return True
          else:
              return False
      invariant_list = invariant.split(';')
      for inv in invariant_list:
          clock_index = inv.split('c')[1]
          if clock_index == str(clock + 1):
              number = float(inv.split('>')[0])
              if path_type == 'f':
                  return self.clockValueFaultyPath[clock][pos] <= number
              elif path_type == 'n':
                  return self.clockValueNormalPath[clock][pos] <= number
      return True
  \<close>
\<close>

primrec parseInv_list :: "string list \<Rightarrow> nat \<Rightarrow> nat \<Rightarrow> string \<Rightarrow> py_error + constr" where
  "parseInv_list [] clock pos path_type = Inr (\<lambda>m. True)"
| "parseInv_list (inv' # invariant_list) clock pos path_type =
     (case py_nth (split inv' ''c'') 1 of
        Inl e \<Rightarrow> Inl e
      | Inr clock_index \<Rightarrow>
          if clock_index = str_nat (clock + 1) then
            (case py_float (hd (split inv' ''>'')) of
               Inl e \<Rightarrow> Inl e
             | Inr number \<Rightarrow>
                 if path_type = ''f'' then Inr (\<lambda>m. clockValueFaultyPath m clock pos \<le> number)
                 else if path_type = ''n'' then Inr (\<lambda>m. clockValueNormalPath m clock pos \<le> number)
                 else parseInv_list invariant_list clock pos path_type)
          else parseInv_list invariant_list clock pos path_type)"

definition parseInv :: "py_invariant \<Rightarrow> nat \<Rightarrow> nat \<Rightarrow> string \<Rightarrow> py_error + constr" where
  "parseInv invariant' clock pos path_type =
     (case invariant' of
        InvInt n \<Rightarrow> Inr (\<lambda>m. n = 1)
      | InvStr text \<Rightarrow> parseInv_list (split text '';'') clock pos path_type)"


subsection \<open>addConstraintOnIdTransition\<close>

text \<open>z3 reads a Python bool compared with an Int variable as 1 or 0.\<close>

definition py_bool_int :: "bool \<Rightarrow> int" where
  "py_bool_int b = (if b then 1 else 0)"

text \<open>
  The body of \<^verbatim>\<open>for i in range(self.automaton.clockNum)\<close> inside the loop over the
  transitions \<open>j\<close>: the reset flags and the invariants of the source state (at
  \<open>pos\<close>) and of the target state (at \<open>pos + 1\<close>) of transition \<open>j\<close>, for clock
  \<open>i\<close>. \<^verbatim>\<open>And(x)\<close> of the single value \<^verbatim>\<open>parseInv\<close> returns is that value.
\<close>

definition clock_constraints :: "Z3Model \<Rightarrow> nat \<Rightarrow> nat \<Rightarrow> nat \<Rightarrow> py_error + constr list" where
  "clock_constraints z pos j i =
     (let transition' = transitionList (automaton z) ! j;
          sourceState = source transition';
          finalState = target transition'
      in bind_err (parseInv (invariant sourceState) i pos ''f'') (\<lambda>source_f.
         bind_err (parseInv (invariant finalState) i (pos + 1) ''f'') (\<lambda>final_f.
         bind_err (parseInv (invariant sourceState) i pos ''n'') (\<lambda>source_n.
         bind_err (parseInv (invariant finalState) i (pos + 1) ''n'') (\<lambda>final_n.
         Inr [\<lambda>m. faultyPath m pos = int j \<longrightarrow>
                   resetConstraintFaultyPath m i pos = py_bool_int (resetTransition z ! i ! j),
              \<lambda>m. normalPath m pos = int j \<longrightarrow>
                   resetConstraintNormalPath m i pos = py_bool_int (resetTransition z ! i ! j),
              \<lambda>m. faultyPath m pos = int j \<longrightarrow> sourceInvFaultyPath m i pos = source_f m,
              \<lambda>m. faultyPath m pos = int j \<longrightarrow> finalInvFaultyPath m i pos = final_f m,
              \<lambda>m. normalPath m pos = int j \<longrightarrow> sourceInvNormalPath m i pos = source_n m,
              \<lambda>m. normalPath m pos = int j \<longrightarrow> finalInvNormalPath m i pos = final_n m])))))"

text \<open>The body of \<^verbatim>\<open>for j in range(self.automaton.getNbTransition())\<close>.\<close>

definition transition_constraints :: "Z3Model \<Rightarrow> nat \<Rightarrow> nat \<Rightarrow> py_error + constr list" where
  "transition_constraints z pos j =
     (let n = clockNum (automaton z) in
      bind_err (guard_constraint n (clockTransition z ! j) pos ''f'') (\<lambda>guard_f.
      bind_err (guard_constraint n (clockTransition z ! j) pos ''n'') (\<lambda>guard_n.
      bind_err (map_err (clock_constraints z pos j) [0..<n]) (\<lambda>css.
      Inr ([\<lambda>m. faultyPath m pos = int j \<longrightarrow> idTransitionFaultyPath m pos = labelTransition m j,
            \<lambda>m. faultyPath m pos = int j \<longrightarrow> clockConstraintFaultyPath m pos = guard_f m,
            \<lambda>m. normalPath m pos = int j \<longrightarrow> idTransitionNormalPath m pos = labelTransition m j,
            \<lambda>m. normalPath m pos = int j \<longrightarrow> clockConstraintNormalPath m pos = guard_n m]
           @ concat css)))))"

text \<open>
  The assertions after that loop (lines 193 to 236 of suggestion.py), in the source's
  order. \<open>prev\<close> is the position \<^verbatim>\<open>pos-1\<close> reads in the global-clock lists and
  \<open>obs\<close> the position \<^verbatim>\<open>pos\<close> reads in \<^verbatim>\<open>self.isObservableTransition\<close>.
\<close>

definition step_constraints :: "Z3Model \<Rightarrow> nat \<Rightarrow> nat \<Rightarrow> nat \<Rightarrow> constr list" where
  "step_constraints z pos prev obs =
     [\<lambda>m. clockConstraintFaultyPath m pos = True,
      \<lambda>m. clockConstraintNormalPath m pos = True]
     @ concat (map (\<lambda>j.
        [\<lambda>m. resetConstraintFaultyPath m j pos = py_bool_int True \<longrightarrow>
              clockValueFaultyPath m j (pos + 1) = 0 + delayClockFaultyPath m (pos + 1),
         \<lambda>m. resetConstraintFaultyPath m j pos = py_bool_int False \<longrightarrow>
              clockValueFaultyPath m j (pos + 1) =
                clockValueFaultyPath m j pos + delayClockFaultyPath m (pos + 1),
         \<lambda>m. resetConstraintNormalPath m j pos = py_bool_int True \<longrightarrow>
              clockValueNormalPath m j (pos + 1) = 0 + delayClockNormalPath m (pos + 1),
         \<lambda>m. resetConstraintNormalPath m j pos = py_bool_int False \<longrightarrow>
              clockValueNormalPath m j (pos + 1) =
                clockValueNormalPath m j pos + delayClockNormalPath m (pos + 1),
         \<lambda>m. sourceInvFaultyPath m j pos = True \<and> finalInvFaultyPath m j pos = True,
         \<lambda>m. sourceInvNormalPath m j pos = True \<and> finalInvNormalPath m j pos = True])
        [0..<clockNum (automaton z)])
     @ [\<lambda>m. delayClockFaultyPath m pos \<ge> 0,
        \<lambda>m. delayClockNormalPath m pos \<ge> 0,
        \<lambda>m. delayClockNormalPath m (pos + 1) \<ge> 0,
        \<lambda>m. delayClockFaultyPath m (pos + 1) \<ge> 0,
        \<lambda>m. globalClockFaultyPath m pos = globalClockFaultyPath m prev + delayClockFaultyPath m pos,
        \<lambda>m. globalClockNormalPath m pos = globalClockNormalPath m prev + delayClockNormalPath m pos,
        \<lambda>m. faultyPath m pos = 0 \<longrightarrow> delayClockFaultyPath m (pos + 1) = 0,
        \<lambda>m. normalPath m pos = 0 \<longrightarrow> delayClockNormalPath m (pos + 1) = 0]
     @ (if pos \<ge> 1 then
          [\<lambda>m. if faultyPath m pos = 0
                then lengthFaultyPath m pos = lengthFaultyPath m (pos - 1)
                else lengthFaultyPath m pos = lengthFaultyPath m (pos - 1) + 1,
           \<lambda>m. if normalPath m pos = 0
                then lengthNormalPath m pos = lengthNormalPath m (pos - 1)
                else lengthNormalPath m pos = lengthNormalPath m (pos - 1) + 1]
        else [])
     @ [\<lambda>m. ((idTransitionFaultyPath m pos > NO_OBS \<or> idTransitionNormalPath m pos > NO_OBS)
               \<and> isObservableTransition m obs) = checkSynchro m pos,
        \<lambda>m. \<not> checkSynchro m pos \<or>
             (idTransitionFaultyPath m pos = idTransitionNormalPath m pos \<and>
              globalClockFaultyPath m pos = globalClockNormalPath m pos)]"

text \<open>
  \<^verbatim>\<open>addConstraintOnIdTransition(pos)\<close> is called with \<open>pos\<close> the last index of the
  per-step lists, so \<open>pos\<close>, \<open>pos + 1\<close> (in the lists one longer) and, from step 1
  on, \<open>pos - 1\<close> are in range. Two reads are not: \<^verbatim>\<open>self.globalClockFaultyPath[pos-1]\<close>
  at \<open>pos = 0\<close> is index -1, the last element, and
  \<^verbatim>\<open>self.isObservableTransition[pos]\<close> reads a list that has one entry per
  transition, not per step.
\<close>

definition addConstraintOnIdTransition :: "Z3Model \<Rightarrow> nat \<Rightarrow> py_error + Z3Model" where
  "addConstraintOnIdTransition z pos =
     bind_err (map_err (transition_constraints z pos) [0..<getNbTransition (automaton z)]) (\<lambda>css.
     bind_err (py_index (lenPath z) (int pos - 1)) (\<lambda>prev.
     bind_err (py_index (lenObservable z) (int pos)) (\<lambda>obs.
     Inr (z\<lparr>s := s z @ concat css @ step_constraints z pos prev obs\<rparr>))))"

subsection \<open>The constructor: initialize_z3_variables and add_initial_constraints\<close>

text \<open>
  \<^verbatim>\<open>initialize_z3_variables\<close> creates the variables of step 0: every per-step list
  has length 1. The reset flags of step 0 are declared Bool, which the model records as
  the range of their \<open>int\<close> value.
\<close>

definition initialize_z3_variables :: "Z3Model \<Rightarrow> Z3Model" where
  "initialize_z3_variables z =
     z\<lparr>lenPath := 1,
       s := s z @ concat (map (\<lambda>i.
              [\<lambda>m. resetConstraintFaultyPath m i 0 = 0 \<or> resetConstraintFaultyPath m i 0 = 1,
               \<lambda>m. resetConstraintNormalPath m i 0 = 0 \<or> resetConstraintNormalPath m i 0 = 1])
              [0..<clockNum (automaton z)])\<rparr>"

definition initial_constraints :: "Z3Model \<Rightarrow> constr list" where
  "initial_constraints z =
     [\<lambda>m. labelTransition m 0 = 0,
      z3_And (map (\<lambda>x m. labelTransition m x \<ge> 0 \<and> labelTransition m x \<le> maxLabelTransition z)
                [0..<getNbTransition (automaton z)]),
      \<lambda>m. faultyPath m 0 = int (getNbTransition (automaton z)) - 1,
      \<lambda>m. normalPath m 0 = int (getNbTransition (automaton z)) - 1,
      \<lambda>m. faultyPath m 0 = lastlyActiveFaultyPath m 0,
      \<lambda>m. normalPath m 0 = lastlyActiveNormalPath m 0]
     @ concat (map (\<lambda>i.
        [\<lambda>m. clockValueFaultyPath m i 0 = 0,
         \<lambda>m. clockValueNormalPath m i 0 = 0]) [0..<clockNum (automaton z)])
     @ [\<lambda>m. globalClockFaultyPath m 0 = 0,
        \<lambda>m. globalClockNormalPath m 0 = 0,
        \<lambda>m. idTransitionNormalPath m 0 \<noteq> FAULT,
        \<lambda>m. nopFaultyPath m 0 = False,
        \<lambda>m. nopNormalPath m 0 = False,
        \<lambda>m. faultOccursByThePast m 0 = (idTransitionFaultyPath m 0 = FAULT),
        \<lambda>m. cptFaultOccursByThePast m 0 = 0,
        \<lambda>m. bound m \<ge> 0,
        \<lambda>m. delta m \<ge> 0,
        \<lambda>m. delayClockFaultyPath m 0 = 0,
        \<lambda>m. delayClockNormalPath m 0 = 0,
        \<lambda>m. lengthNormalPath m 0 = 0,
        \<lambda>m. lengthFaultyPath m 0 = 0]"

definition add_initial_constraints :: "Z3Model \<Rightarrow> py_error + Z3Model" where
  "add_initial_constraints z =
     addConstraintOnIdTransition
       (z\<lparr>s := s z @ initial_constraints z,
          lenObservable := getNbTransition (automaton z)\<rparr>) 0"

text \<open>
  \<^verbatim>\<open>Z3Model.__init__\<close>, from the automaton, BOUND and DELTA the parser returns.
  (\<^verbatim>\<open>create_observable_map\<close> only prepares texts for printing.)
\<close>

definition Z3Model_init :: "automaton \<Rightarrow> int \<Rightarrow> int \<Rightarrow> py_error + Z3Model" where
  "Z3Model_init A BOUND' DELTA' =
     bind_err (setup_transitions (initialize_z3_variables
       \<lparr>automaton = A, BOUND = BOUND', DELTA = DELTA', initState = 0, nextTransition = [],
        idxAssum = 0, maxLabelTransition = 0, maxLabelState = 0, resetTransition = [],
        clockTransition = [], s = [], lenPath = 0, lenObservable = 0\<rparr>))
       add_initial_constraints"


subsection \<open>incBound\<close>

text \<open>
  \<^verbatim>\<open>incVariableList\<close> appends one variable to every per-step list. \<^verbatim>\<open>incBound\<close>
  then asserts, for the new step \<open>idx\<close>, the assertions of lines 295 to 319, calls
  \<^verbatim>\<open>addConstraintOnIdTransition(idx)\<close>, and asserts lines 323 to 345.
\<close>

definition incVariableList :: "Z3Model \<Rightarrow> Z3Model" where
  "incVariableList z = z\<lparr>lenPath := lenPath z + 1\<rparr>"

definition incBound_before :: "Z3Model \<Rightarrow> nat \<Rightarrow> constr list" where
  "incBound_before z idx =
     [\<lambda>m. faultyPath m idx \<le> int (getNbTransition (automaton z)),
      \<lambda>m. normalPath m idx \<le> int (getNbTransition (automaton z)),
      \<lambda>m. idTransitionFaultyPath m idx \<le> maxLabelTransition z,
      \<lambda>m. idTransitionNormalPath m idx \<le> maxLabelTransition z,
      \<lambda>m. faultyPath m idx = int NOP_TRANSITION \<longrightarrow>
           lastlyActiveFaultyPath m idx = lastlyActiveFaultyPath m (idx - 1),
      \<lambda>m. faultyPath m idx \<noteq> int NOP_TRANSITION \<longrightarrow>
           lastlyActiveFaultyPath m idx = faultyPath m idx,
      \<lambda>m. normalPath m idx = int NOP_TRANSITION \<longrightarrow>
           lastlyActiveNormalPath m idx = lastlyActiveNormalPath m (idx - 1),
      \<lambda>m. normalPath m idx \<noteq> int NOP_TRANSITION \<longrightarrow>
           lastlyActiveNormalPath m idx = normalPath m idx]
     @ concat (map (\<lambda>j.
        [\<lambda>m. lastlyActiveFaultyPath m (idx - 1) = int j \<longrightarrow>
              z3_Or (map (\<lambda>n m. faultyPath m idx = int n) (nextTransition z ! j)) m,
         \<lambda>m. lastlyActiveNormalPath m (idx - 1) = int j \<longrightarrow>
              z3_Or (map (\<lambda>n m. normalPath m idx = int n) (nextTransition z ! j)) m])
        [0..<getNbTransition (automaton z)])
     @ [\<lambda>m. idTransitionNormalPath m idx \<noteq> FAULT,
        \<lambda>m. delayClockFaultyPath m idx \<ge> 0,
        \<lambda>m. delayClockNormalPath m idx \<ge> 0]"

definition incBound_after :: "nat \<Rightarrow> constr list" where
  "incBound_after idx =
     [\<lambda>m. nopFaultyPath m idx = (faultyPath m idx = int NOP_TRANSITION),
      \<lambda>m. nopNormalPath m idx = (normalPath m idx = int NOP_TRANSITION),
      \<lambda>m. \<not> nopFaultyPath m idx \<or> \<not> nopNormalPath m idx,
      \<lambda>m. nopFaultyPath m (idx - 1) \<longrightarrow>
           (nopFaultyPath m idx \<or> idTransitionFaultyPath m idx > NO_OBS),
      \<lambda>m. nopNormalPath m (idx - 1) \<longrightarrow>
           (nopNormalPath m idx \<or> idTransitionNormalPath m idx > NO_OBS),
      \<lambda>m. (faultOccursByThePast m (idx - 1) \<or> idTransitionFaultyPath m idx = FAULT)
           = faultOccursByThePast m idx,
      \<lambda>m. faultOccursByThePast m (idx - 1) = False \<longrightarrow> cptFaultOccursByThePast m idx = 0,
      \<lambda>m. faultOccursByThePast m idx = False \<longrightarrow> cptFaultOccursByThePast m (idx + 1) = 0,
      \<lambda>m. faultOccursByThePast m idx = True \<longrightarrow>
           cptFaultOccursByThePast m (idx + 1) =
             cptFaultOccursByThePast m idx + delayClockFaultyPath m (idx + 1)]"

definition incBound :: "Z3Model \<Rightarrow> py_error + Z3Model" where
  "incBound z =
     (let idx = lenPath z in
      if \<not> idx > 0 then Inl AssertionError
      else
        (let z1 = incVariableList z;
             z2 = z1\<lparr>s := s z1 @ incBound_before z1 idx\<rparr>
         in bind_err (addConstraintOnIdTransition z2 idx) (\<lambda>z3.
            Inr (z3\<lparr>s := s z3 @ incBound_after idx\<rparr>))))"

section \<open>The search driver: run\<close>

text \<open>
  \<^verbatim>\<open>
  def run(self):
      assumD = Bool("d" + str(self.idxAssum))
      self.s.add(Implies(assumD, self.delta == self.DELTA))
      for i in range(self.automaton.getNbTransition()):
          self.s.add(self.labelTransition[i] == self.automaton.getTransitionAt(i).getEventId())
      cpt = 1
      tmp = list(self.isObservableTransition)
      this_time = 0
      while cpt <= self.BOUND:
          cpt += 1
          self.incBound()
          self.idxAssum += 1
          assumB = Bool("b" + str(self.idxAssum))
          assumF = Bool("f" + str(self.idxAssum))
          self.s.add(Implies(assumB, self.bound == len(self.faultyPath)))
          self.s.add(Implies(assumF, self.cptFaultOccursByThePast[-1] == self.DELTA))
          assumFO = Bool("fo" + str(self.idxAssum))
          self.s.add(Implies(assumFO, self.faultOccursByThePast[-1] == True))
          listAssum = [assumB, assumF] + tmp
          res = self.s.check(assumD, *listAssum)
          ...
          if res == sat:
              print("sat")
              m = self.s.model()
              self.printModel(m, cpt)
              print("total_time", this_time)
              return
          else:
              print("Increase the bound:", len(self.faultyPath))
      print("The problem is UNSAT")
      print("total_time", this_time)
      self.print_unsat_core()
  \<close>
  The solver is outside the program: \<open>check\<close> takes the assertions and the assumptions
  and answers sat with a model, unsat, or unknown. (The solver's timing statistics and
  the texts of the unsat core are printed and decide nothing.)
\<close>

datatype check_result = sat model | unsat | unknown

type_synonym solver = "constr list \<Rightarrow> constr list \<Rightarrow> check_result"

text \<open>What run reports: sat with the model and \<open>cpt\<close>, "The problem is UNSAT", or
  an exception that ends the program.\<close>

datatype verdict = ReportedSat model int | ReportedUnsat | Raised py_error

definition run_prelude :: "Z3Model \<Rightarrow> Z3Model" where
  "run_prelude z =
     z\<lparr>s := s z
          @ [\<lambda>m. assumD m \<longrightarrow> delta m = real_of_int (DELTA z)]
          @ map (\<lambda>i m. labelTransition m i = event (transitionList (automaton z) ! i))
              [0..<getNbTransition (automaton z)]\<rparr>"

text \<open>
  One round of the loop up to the solver call. The last element of the fault-counter
  list is at index \<^verbatim>\<open>len(self.faultyPath)\<close> (that list is one longer), the last
  element of \<^verbatim>\<open>self.faultOccursByThePast\<close> at \<^verbatim>\<open>len(self.faultyPath) - 1\<close>.
\<close>

definition run_round :: "Z3Model \<Rightarrow> py_error + Z3Model" where
  "run_round z =
     bind_err (incBound z) (\<lambda>z1.
       (let k = idxAssum z1 + 1 in
        Inr (z1\<lparr>idxAssum := k,
                s := s z1 @
                  [\<lambda>m. assumB m k \<longrightarrow> bound m = int (lenPath z1),
                   \<lambda>m. assumF m k \<longrightarrow> cptFaultOccursByThePast m (lenPath z1) = real_of_int (DELTA z1),
                   \<lambda>m. assumFO m k \<longrightarrow> faultOccursByThePast m (lenPath z1 - 1) = True]\<rparr>)))"

text \<open>\<^verbatim>\<open>self.s.check(assumD, *listAssum)\<close> with
  \<^verbatim>\<open>listAssum = [assumB, assumF] + tmp\<close>: the literals assumed true.\<close>

definition listAssum :: "Z3Model \<Rightarrow> constr list" where
  "listAssum z =
     [\<lambda>m. assumD m, \<lambda>m. assumB m (idxAssum z), \<lambda>m. assumF m (idxAssum z)]
     @ map (\<lambda>i m. isObservableTransition m i) [0..<lenObservable z]"

lemma addConstraintOnIdTransition_BOUND:
  "addConstraintOnIdTransition z pos = Inr z' \<Longrightarrow> BOUND z' = BOUND z"
  by (auto simp: addConstraintOnIdTransition_def bind_err_def split: sum.splits)

lemma incBound_BOUND: "incBound z = Inr z' \<Longrightarrow> BOUND z' = BOUND z"
  by (auto simp: incBound_def incVariableList_def bind_err_def Let_def
      split: sum.splits if_splits dest!: addConstraintOnIdTransition_BOUND)

lemma run_round_BOUND: "run_round z = Inr z' \<Longrightarrow> BOUND z' = BOUND z"
  by (auto simp: run_round_def bind_err_def Let_def split: sum.splits dest!: incBound_BOUND)

text \<open>
  The \<^verbatim>\<open>while\<close> loop, entered with \<open>cpt\<close>. The first component of the result lists
  the arguments of the "Increase the bound:" messages printed, in order.
\<close>

function run_loop :: "solver \<Rightarrow> Z3Model \<Rightarrow> int \<Rightarrow> nat list \<times> verdict" where
  "run_loop check z cpt =
     (if cpt \<le> BOUND z then
        (case run_round z of
           Inl e \<Rightarrow> ([], Raised e)
         | Inr z' \<Rightarrow>
             (case check (s z') (listAssum z') of
                sat m \<Rightarrow> ([], ReportedSat m (cpt + 1))
              | _ \<Rightarrow>
                  (let (printed, v) = run_loop check z' (cpt + 1)
                   in (lenPath z' # printed, v))))
      else ([], ReportedUnsat))"
  by pat_completeness auto
termination
  by (relation "measure (\<lambda>(check, z, cpt). nat (BOUND z + 1 - cpt))")
     (auto dest: run_round_BOUND)

declare run_loop.simps [simp del]

definition run :: "solver \<Rightarrow> Z3Model \<Rightarrow> nat list \<times> verdict" where
  "run check z = run_loop check (run_prelude z) 1"

text \<open>The whole program on a parsed input: the constructor, then run.\<close>

definition main :: "solver \<Rightarrow> automaton \<Rightarrow> int \<Rightarrow> int \<Rightarrow> nat list \<times> verdict" where
  "main check A BOUND' DELTA' =
     (case Z3Model_init A BOUND' DELTA' of
        Inl e \<Rightarrow> ([], Raised e)
      | Inr z \<Rightarrow> run check z)"


section \<open>A small input\<close>

text \<open>
  The automaton the parser builds for the input file
  \<^verbatim>\<open>
  Initial_state 0 BOUND 3 DELTA 0 {a} {u} Clocks {c1}
  0 a 1 c1>=0 0
  \<close>
  one clock, one transition from state 0 to state 1 on the observable event a (id 3),
  no fault transition. After the constructor's self-loop (index 0) it has two transitions.
\<close>

definition example_automaton :: "py_error + automaton" where
  "example_automaton =
     bind_err (Automaton_init 0 1) (\<lambda>A.
     add_parsed_transition A 0 (InvInt 1) 1 (InvInt 1) 3 [''c1>=0''] [])"

definition example_main :: "solver \<Rightarrow> int \<Rightarrow> int \<Rightarrow> nat list \<times> verdict" where
  "example_main check BOUND' DELTA' =
     (case example_automaton of
        Inl e \<Rightarrow> ([], Raised e)
      | Inr A \<Rightarrow> main check A BOUND' DELTA')"

text \<open>A header line with two observable and two unobservable event names.\<close>

definition example_header :: string where
  "example_header = ''Initial_state 0 BOUND 3 DELTA 0 {a,b} {u,v} Clocks {c1}'' @ [CHR 0x0A]"

text \<open>A header line with one observable event name and an empty pair of braces.\<close>

definition example_header_empty :: string where
  "example_header_empty = ''Initial_state 0 BOUND 3 DELTA 0 {a} {} Clocks {c1}'' @ [CHR 0x0A]"

text \<open>
  A valuation of the variables: both runs take the start transition (index 2) at step 0
  and the transition on a (index 1) at step 1, with no delay; no fault occurs.
\<close>

definition example_model :: model where
  "example_model =
     \<lparr>faultyPath = (\<lambda>i. if i = 0 then 2 else 1),
      normalPath = (\<lambda>i. if i = 0 then 2 else 1),
      lastlyActiveFaultyPath = (\<lambda>i. if i = 0 then 2 else 1),
      lastlyActiveNormalPath = (\<lambda>i. if i = 0 then 2 else 1),
      idTransitionFaultyPath = (\<lambda>i. if i = 0 then 2 else 3),
      idTransitionNormalPath = (\<lambda>i. if i = 0 then 2 else 3),
      nopFaultyPath = (\<lambda>i. False),
      nopNormalPath = (\<lambda>i. False),
      faultOccursByThePast = (\<lambda>i. False),
      checkSynchro = (\<lambda>i. i \<noteq> 0),
      cptFaultOccursByThePast = (\<lambda>i. 0),
      globalClockFaultyPath = (\<lambda>i. 0),
      globalClockNormalPath = (\<lambda>i. 0),
      delayClockFaultyPath = (\<lambda>i. 0),
      delayClockNormalPath = (\<lambda>i. 0),
      clockConstraintFaultyPath = (\<lambda>i. True),
      clockConstraintNormalPath = (\<lambda>i. True),
      clockValueFaultyPath = (\<lambda>c i. 0),
      clockValueNormalPath = (\<lambda>c i. 0),
      sourceInvFaultyPath = (\<lambda>c i. True),
      sourceInvNormalPath = (\<lambda>c i. True),
      finalInvFaultyPath = (\<lambda>c i. True),
      finalInvNormalPath = (\<lambda>c i. True),
      lengthFaultyPath = (\<lambda>i. if i = 0 then 0 else 1),
      lengthNormalPath = (\<lambda>i. if i = 0 then 0 else 1),
      resetConstraintFaultyPath = (\<lambda>c i. if i = 0 then 1 else 0),
      resetConstraintNormalPath = (\<lambda>c i. if i = 0 then 1 else 0),
      bound = 2,
      delta = 0,
      labelTransition = (\<lambda>j. if j = 0 then 0 else if j = 1 then 3 else 2),
      isObservableTransition = (\<lambda>j. True),
      assumD = True,
      assumB = (\<lambda>k. k = 1),
      assumF = (\<lambda>k. True),
      assumFO = (\<lambda>k. False)\<rparr>"

text \<open>
  The same runs with five time units spent before the first transition of each run.
\<close>

definition example_model_delayed :: model where
  "example_model_delayed =
     example_model
       \<lparr>globalClockFaultyPath := (\<lambda>i. if i = 0 then 0 else 5),
        globalClockNormalPath := (\<lambda>i. if i = 0 then 0 else 5),
        delayClockFaultyPath := (\<lambda>i. if i = 1 then 5 else 0),
        delayClockNormalPath := (\<lambda>i. if i = 1 then 5 else 0),
        clockValueFaultyPath := (\<lambda>c i. if i = 0 then 0 else 5),
        clockValueNormalPath := (\<lambda>c i. if i = 0 then 0 else 5)\<rparr>"

text \<open>
  The state of the encoder when the solver is called in round \<open>k\<close> (the constructor,
  the prelude of run, \<open>k\<close> rounds), and a model answering that call: it satisfies the
  assertions and the assumptions.
\<close>

primrec rounds :: "nat \<Rightarrow> Z3Model \<Rightarrow> py_error + Z3Model" where
  "rounds 0 z = Inr z"
| "rounds (Suc k) z = bind_err (rounds k z) run_round"

definition query :: "automaton \<Rightarrow> int \<Rightarrow> int \<Rightarrow> nat \<Rightarrow> py_error + Z3Model" where
  "query A BOUND' DELTA' k =
     bind_err (Z3Model_init A BOUND' DELTA') (\<lambda>z. rounds k (run_prelude z))"

definition answers :: "model \<Rightarrow> Z3Model \<Rightarrow> bool" where
  "answers m z = (holds m (s z) \<and> holds m (listAssum z))"

text \<open>A solver is sound when every model it returns satisfies what it was asked.\<close>

definition sound :: "solver \<Rightarrow> bool" where
  "sound check = (\<forall>cs as m. check cs as = sat m \<longrightarrow> holds m cs \<and> holds m as)"

text \<open>The solver that proposes one fixed model and answers sat exactly when it fits.\<close>

definition proposing :: "model \<Rightarrow> solver" where
  "proposing m cs as = (if holds m cs \<and> holds m as then sat m else unknown)"


section \<open>Properties of the encoding\<close>

subsection \<open>What the encoder functions return\<close>


lemma holds_append: "holds m (xs @ ys) = (holds m xs \<and> holds m ys)"
  by (simp add: holds_def)

lemma bind_err_Inr:
  "bind_err x f = Inr y \<longleftrightarrow> (\<exists>v. x = Inr v \<and> f v = Inr y)"
  by (cases x) (simp_all add: bind_err_def)

lemma addConstraintOnIdTransition_Inr:
  assumes "addConstraintOnIdTransition z pos = Inr z'"
  obtains css prev where
    "map_err (transition_constraints z pos) [0..<getNbTransition (automaton z)] = Inr css"
    "py_index (lenPath z) (int pos - 1) = Inr prev"
    "pos < lenObservable z"
    "z' = z\<lparr>s := s z @ concat css @ step_constraints z pos prev pos\<rparr>"
  using assms
  by (auto simp: addConstraintOnIdTransition_def bind_err_Inr py_index_def split: if_splits)

lemma clock_constraints_upd [simp]:
  "clock_constraints (z\<lparr>s := x\<rparr>) = clock_constraints z"
  "clock_constraints (z\<lparr>lenPath := n\<rparr>) = clock_constraints z"
  by (simp_all add: clock_constraints_def fun_eq_iff)

lemma transition_constraints_upd [simp]:
  "transition_constraints (z\<lparr>s := x\<rparr>) = transition_constraints z"
  "transition_constraints (z\<lparr>lenPath := n\<rparr>) = transition_constraints z"
  by (simp_all add: transition_constraints_def fun_eq_iff)

lemma step_constraints_upd [simp]:
  "step_constraints (z\<lparr>s := x\<rparr>) = step_constraints z"
  "step_constraints (z\<lparr>lenPath := n\<rparr>) = step_constraints z"
  by (simp_all add: step_constraints_def fun_eq_iff)

lemma incBound_before_upd [simp]:
  "incBound_before (z\<lparr>s := x\<rparr>) = incBound_before z"
  "incBound_before (z\<lparr>lenPath := n\<rparr>) = incBound_before z"
  by (simp_all add: incBound_before_def fun_eq_iff)

lemma incBound_unfold:
  "incBound z = Inr z' \<Longrightarrow> 0 < lenPath z \<and>
     (\<exists>z3. addConstraintOnIdTransition
        (z\<lparr>lenPath := lenPath z + 1, s := s z @ incBound_before z (lenPath z)\<rparr>) (lenPath z) = Inr z3
        \<and> z' = z3\<lparr>s := s z3 @ incBound_after (lenPath z)\<rparr>)"
  by (cases "0 < lenPath z")
     (simp_all add: incBound_def Let_def bind_err_Inr incVariableList_def, blast)

lemma incBound_Inr:
  assumes "incBound z = Inr z'"
  obtains css where
    "map_err (transition_constraints z (lenPath z)) [0..<getNbTransition (automaton z)] = Inr css"
    "0 < lenPath z" "lenPath z < lenObservable z"
    "z' = z\<lparr>lenPath := lenPath z + 1,
            s := s z @ incBound_before z (lenPath z) @ concat css
                 @ step_constraints z (lenPath z) (lenPath z - 1) (lenPath z)
                 @ incBound_after (lenPath z)\<rparr>"
proof -
  let ?idx = "lenPath z"
  let ?z2 = "z\<lparr>lenPath := ?idx + 1, s := s z @ incBound_before z ?idx\<rparr>"
  from incBound_unfold[OF assms] obtain z3 where pos: "0 < ?idx"
    and z3: "addConstraintOnIdTransition ?z2 ?idx = Inr z3"
    and z': "z' = z3\<lparr>s := s z3 @ incBound_after ?idx\<rparr>"
    by blast
  from z3 obtain css prev where
    css: "map_err (transition_constraints ?z2 ?idx) [0..<getNbTransition (automaton ?z2)] = Inr css"
    and prev: "py_index (lenPath ?z2) (int ?idx - 1) = Inr prev"
    and obs: "?idx < lenObservable ?z2"
    and z3_eq: "z3 = ?z2\<lparr>s := s ?z2 @ concat css @ step_constraints ?z2 ?idx prev ?idx\<rparr>"
    by (rule addConstraintOnIdTransition_Inr)
  from prev pos have prev_eq: "prev = ?idx - 1"
    by (simp add: py_index_def split: if_splits)
  show ?thesis
  proof (rule that)
    show "map_err (transition_constraints z ?idx) [0..<getNbTransition (automaton z)] = Inr css"
      using css by simp
    show "0 < ?idx" by (rule pos)
    show "?idx < lenObservable z" using obs by simp
    show "z' = z\<lparr>lenPath := lenPath z + 1,
            s := s z @ incBound_before z (lenPath z) @ concat css
                 @ step_constraints z (lenPath z) (lenPath z - 1) (lenPath z)
                 @ incBound_after (lenPath z)\<rparr>"
      unfolding z' z3_eq prev_eq by simp
  qed
qed


lemma run_round_unfold:
  "run_round z = Inr z' \<Longrightarrow>
     \<exists>z1. incBound z = Inr z1 \<and>
       z' = z1\<lparr>idxAssum := idxAssum z1 + 1,
                s := s z1 @
                  [\<lambda>m. assumB m (idxAssum z1 + 1) \<longrightarrow> bound m = int (lenPath z1),
                   \<lambda>m. assumF m (idxAssum z1 + 1) \<longrightarrow>
                        cptFaultOccursByThePast m (lenPath z1) = real_of_int (DELTA z1),
                   \<lambda>m. assumFO m (idxAssum z1 + 1) \<longrightarrow>
                        faultOccursByThePast m (lenPath z1 - 1) = True]\<rparr>"
  by (simp add: run_round_def bind_err_Inr Let_def, blast)

lemma run_round_Inr:
  assumes "run_round z = Inr z'"
  obtains css where
    "map_err (transition_constraints z (lenPath z)) [0..<getNbTransition (automaton z)] = Inr css"
    "0 < lenPath z" "lenPath z < lenObservable z"
    "z' = z\<lparr>lenPath := lenPath z + 1,
            idxAssum := idxAssum z + 1,
            s := s z @ incBound_before z (lenPath z) @ concat css
                 @ step_constraints z (lenPath z) (lenPath z - 1) (lenPath z)
                 @ incBound_after (lenPath z)
                 @ [\<lambda>m. assumB m (idxAssum z + 1) \<longrightarrow> bound m = int (lenPath z + 1),
                    \<lambda>m. assumF m (idxAssum z + 1) \<longrightarrow>
                         cptFaultOccursByThePast m (lenPath z + 1) = real_of_int (DELTA z),
                    \<lambda>m. assumFO m (idxAssum z + 1) \<longrightarrow> faultOccursByThePast m (lenPath z) = True]\<rparr>"
proof -
  from run_round_unfold[OF assms] obtain z1 where z1: "incBound z = Inr z1"
    and z': "z' = z1\<lparr>idxAssum := idxAssum z1 + 1,
                s := s z1 @
                  [\<lambda>m. assumB m (idxAssum z1 + 1) \<longrightarrow> bound m = int (lenPath z1),
                   \<lambda>m. assumF m (idxAssum z1 + 1) \<longrightarrow>
                        cptFaultOccursByThePast m (lenPath z1) = real_of_int (DELTA z1),
                   \<lambda>m. assumFO m (idxAssum z1 + 1) \<longrightarrow>
                        faultOccursByThePast m (lenPath z1 - 1) = True]\<rparr>"
    by blast
  from z1 obtain css where
    css: "map_err (transition_constraints z (lenPath z)) [0..<getNbTransition (automaton z)] = Inr css"
    and pos: "0 < lenPath z" and obs: "lenPath z < lenObservable z"
    and z1_eq: "z1 = z\<lparr>lenPath := lenPath z + 1,
            s := s z @ incBound_before z (lenPath z) @ concat css
                 @ step_constraints z (lenPath z) (lenPath z - 1) (lenPath z)
                 @ incBound_after (lenPath z)\<rparr>"
    by (rule incBound_Inr)
  show ?thesis
    by (rule that[OF css pos obs]) (simp add: z' z1_eq)
qed

lemma run_round_frame:
  assumes "run_round z = Inr z'"
  shows "lenPath z' = lenPath z + 1" "idxAssum z' = idxAssum z + 1"
    "automaton z' = automaton z" "lenObservable z' = lenObservable z"
    "DELTA z' = DELTA z" "0 < lenPath z" "lenPath z < lenObservable z"
    "clockTransition z' = clockTransition z" "resetTransition z' = resetTransition z"
  using assms by (auto elim!: run_round_Inr)

lemma run_round_holds:
  assumes "run_round z = Inr z'" "holds m (s z')"
  shows "holds m (s z)"
    "holds m (incBound_before z (lenPath z))"
    "holds m (step_constraints z (lenPath z) (lenPath z - 1) (lenPath z))"
    "holds m (incBound_after (lenPath z))"
    "assumB m (idxAssum z') \<longrightarrow> bound m = int (lenPath z')"
    "assumF m (idxAssum z') \<longrightarrow> cptFaultOccursByThePast m (lenPath z') = real_of_int (DELTA z')"
  using assms by (auto elim!: run_round_Inr simp: holds_append holds_def)


lemma step_constraints_synchro:
  assumes "holds m (step_constraints z pos prev obs)"
  shows "checkSynchro m pos =
           ((idTransitionFaultyPath m pos > NO_OBS \<or> idTransitionNormalPath m pos > NO_OBS)
            \<and> isObservableTransition m obs)"
    and "checkSynchro m pos \<Longrightarrow>
           idTransitionFaultyPath m pos = idTransitionNormalPath m pos \<and>
           globalClockFaultyPath m pos = globalClockNormalPath m pos"
  using assms by (auto simp: step_constraints_def holds_append holds_def)

lemma step_constraints_length:
  assumes "holds m (step_constraints z pos prev obs)" "1 \<le> pos"
  shows "lengthFaultyPath m pos =
           lengthFaultyPath m (pos - 1) + (if faultyPath m pos = 0 then 0 else 1)"
    and "lengthNormalPath m pos =
           lengthNormalPath m (pos - 1) + (if normalPath m pos = 0 then 0 else 1)"
  using assms by (auto simp: step_constraints_def holds_append holds_def split: if_splits)

lemma incBound_after_fault:
  assumes "holds m (incBound_after idx)"
  shows "faultOccursByThePast m idx =
           (faultOccursByThePast m (idx - 1) \<or> idTransitionFaultyPath m idx = FAULT)"
    and "\<not> faultOccursByThePast m (idx - 1) \<Longrightarrow> cptFaultOccursByThePast m idx = 0"
    and "\<not> faultOccursByThePast m idx \<Longrightarrow> cptFaultOccursByThePast m (idx + 1) = 0"
    and "faultOccursByThePast m idx \<Longrightarrow>
           cptFaultOccursByThePast m (idx + 1) =
             cptFaultOccursByThePast m idx + delayClockFaultyPath m (idx + 1)"
  using assms by (auto simp: incBound_after_def holds_def)

lemma rounds_Suc_Inr:
  "rounds (Suc k) z = Inr z' \<longleftrightarrow> (\<exists>y. rounds k z = Inr y \<and> run_round y = Inr z')"
  by (simp add: bind_err_Inr)

lemma rounds_frame:
  assumes "rounds k z = Inr z'"
  shows "lenPath z' = lenPath z + k \<and> idxAssum z' = idxAssum z + k \<and>
         automaton z' = automaton z \<and> lenObservable z' = lenObservable z \<and>
         DELTA z' = DELTA z"
  using assms
proof (induction k arbitrary: z')
  case 0
  then show ?case by simp
next
  case (Suc k)
  then obtain y where y: "rounds k z = Inr y" and r: "run_round y = Inr z'"
    unfolding rounds_Suc_Inr by blast
  from Suc.IH[OF y] run_round_frame[OF r] show ?case by simp
qed

lemma rounds_holds:
  assumes "rounds k z = Inr z'" "holds m (s z')"
  shows "holds m (s z)"
  using assms
proof (induction k arbitrary: z')
  case 0
  then show ?case by simp
next
  case (Suc k)
  then obtain y where y: "rounds k z = Inr y" and r: "run_round y = Inr z'"
    unfolding rounds_Suc_Inr by blast
  from run_round_holds(1)[OF r Suc.prems(2)] Suc.IH[OF y] show ?case by blast
qed

text \<open>Every earlier round is part of a later query.\<close>

lemma rounds_earlier:
  assumes "rounds k z = Inr z'" "j < k"
  shows "\<exists>y y'. rounds j z = Inr y \<and> run_round y = Inr y' \<and>
           (\<forall>m. holds m (s z') \<longrightarrow> holds m (s y'))"
  using assms
proof (induction k arbitrary: z')
  case 0
  then show ?case by simp
next
  case (Suc k)
  from Suc.prems(1) obtain y where y: "rounds k z = Inr y" and r: "run_round y = Inr z'"
    unfolding rounds_Suc_Inr by blast
  show ?case
  proof (cases "j = k")
    case True
    with y r show ?thesis by blast
  next
    case False
    with Suc.prems(2) have "j < k" by simp
    from Suc.IH[OF y this] obtain u u' where u: "rounds j z = Inr u" "run_round u = Inr u'"
      and h: "\<forall>m. holds m (s y) \<longrightarrow> holds m (s u')"
      by blast
    from h run_round_holds(1)[OF r] have "\<forall>m. holds m (s z') \<longrightarrow> holds m (s u')"
      by blast
    with u show ?thesis by blast
  qed
qed

lemma appendTransition_Inr:
  assumes "appendTransition A sourceId finalId ev g resetList = Inr A'"
  obtains src tgt where "mapState A sourceId = Some src" "mapState A finalId = Some tgt"
    "A' = A\<lparr>transitionList := transitionList A @
            [\<lparr>source = src, target = tgt, event = ev, guard = g, reset = resetList\<rparr>]\<rparr>"
  using assms by (auto simp: appendTransition_def split: option.splits)

lemma addState_fields [simp]:
  "transitionList (addState A i v) = transitionList A"
  "clockNum (addState A i v) = clockNum A"
  "initialStateId (addState A i v) = initialStateId A"
  by (simp_all add: addState_def Let_def)

lemma addState_mapState:
  "mapState (addState A i v) i =
     (case mapState A i of None \<Rightarrow> Some \<lparr>id_state = i, invariant = v\<rparr> | Some st \<Rightarrow> Some st)"
  by (auto simp: addState_def Let_def dom_def split: option.splits)

lemma setup_transitions_Inr:
  assumes "setup_transitions z = Inr z'"
  obtains A2 init rt where
    "appendTransition (addState (automaton z) (getMaxStateLabel (automaton z) + 1) (InvInt 1))
       (getMaxStateLabel (automaton z) + 1) (initState z) 2
       (map (\<lambda>i. ''c'' @ str_nat (i + 1) @ ''=0'') [0..<clockNum (automaton z)])
       (map int [0..<clockNum (automaton z)]) = Inr A2"
    "getInitialState A2 = Inr init"
    "build_resetTransition A2 = Inr rt"
    "z' = z\<lparr>automaton := A2,
            nextTransition :=
              map (\<lambda>i. NOP_TRANSITION #
                     filter (\<lambda>j. same_state (target (transitionList (automaton z) ! i))
                                             (source (transitionList (automaton z) ! j)))
                       [0..<getNbTransition (automaton z)])
                [0..<getNbTransition (automaton z)]
              @ [NOP_TRANSITION #
                 filter (\<lambda>idx. same_state (source (transitionList A2 ! idx)) init)
                   [0..<getNbTransition A2]],
            maxLabelState := getMaxStateLabel (automaton z) + 1,
            resetTransition := rt,
            clockTransition := map guard (transitionList A2),
            maxLabelTransition :=
              foldl (\<lambda>mx t. if event t > mx then event t else mx)
                (maxLabelTransition z) (transitionList A2)\<rparr>"
proof -
  from assms have "\<exists>A2 init rt.
    appendTransition (addState (automaton z) (getMaxStateLabel (automaton z) + 1) (InvInt 1))
       (getMaxStateLabel (automaton z) + 1) (initState z) 2
       (map (\<lambda>i. ''c'' @ str_nat (i + 1) @ ''=0'') [0..<clockNum (automaton z)])
       (map int [0..<clockNum (automaton z)]) = Inr A2 \<and>
    getInitialState A2 = Inr init \<and>
    build_resetTransition A2 = Inr rt \<and>
    z' = z\<lparr>automaton := A2,
            nextTransition :=
              map (\<lambda>i. NOP_TRANSITION #
                     filter (\<lambda>j. same_state (target (transitionList (automaton z) ! i))
                                             (source (transitionList (automaton z) ! j)))
                       [0..<getNbTransition (automaton z)])
                [0..<getNbTransition (automaton z)]
              @ [NOP_TRANSITION #
                 filter (\<lambda>idx. same_state (source (transitionList A2 ! idx)) init)
                   [0..<getNbTransition A2]],
            maxLabelState := getMaxStateLabel (automaton z) + 1,
            resetTransition := rt,
            clockTransition := map guard (transitionList A2),
            maxLabelTransition :=
              foldl (\<lambda>mx t. if event t > mx then event t else mx)
                (maxLabelTransition z) (transitionList A2)\<rparr>"
    by (simp add: setup_transitions_def Let_def bind_err_Inr, blast)
  then show ?thesis using that by blast
qed

text \<open>What setup_transitions appends, and where.\<close>

lemma setup_transitions_appended:
  assumes "setup_transitions z = Inr z'"
  obtains t where
    "transitionList (automaton z') = transitionList (automaton z) @ [t]"
    "event t = 2"
    "guard t = map (\<lambda>i. ''c'' @ str_nat (i + 1) @ ''=0'') [0..<clockNum (automaton z)]"
    "reset t = map int [0..<clockNum (automaton z)]"
    "source t = \<lparr>id_state = getMaxStateLabel (automaton z) + 1, invariant = InvInt 1\<rparr>
       \<or> mapState (automaton z) (getMaxStateLabel (automaton z) + 1) = Some (source t)"
proof -
  let ?mls = "getMaxStateLabel (automaton z) + 1"
  from assms obtain A2 init rt where
    app: "appendTransition (addState (automaton z) ?mls (InvInt 1)) ?mls (initState z) 2
       (map (\<lambda>i. ''c'' @ str_nat (i + 1) @ ''=0'') [0..<clockNum (automaton z)])
       (map int [0..<clockNum (automaton z)]) = Inr A2"
    and aut: "automaton z' = A2"
    by (rule setup_transitions_Inr) simp
  from app obtain src tgt where
    src: "mapState (addState (automaton z) ?mls (InvInt 1)) ?mls = Some src"
    and A2: "A2 = (addState (automaton z) ?mls (InvInt 1))\<lparr>transitionList :=
       transitionList (addState (automaton z) ?mls (InvInt 1)) @
       [\<lparr>source = src, target = tgt, event = 2,
         guard = map (\<lambda>i. ''c'' @ str_nat (i + 1) @ ''=0'') [0..<clockNum (automaton z)],
         reset = map int [0..<clockNum (automaton z)]\<rparr>]\<rparr>"
    by (rule appendTransition_Inr)
  let ?t = "\<lparr>source = src, target = tgt, event = 2,
         guard = map (\<lambda>i. ''c'' @ str_nat (i + 1) @ ''=0'') [0..<clockNum (automaton z)],
         reset = map int [0..<clockNum (automaton z)]\<rparr>"
  show ?thesis
  proof (rule that[of ?t])
    show "transitionList (automaton z') = transitionList (automaton z) @ [?t]"
      by (simp add: aut A2)
    show "source ?t = \<lparr>id_state = ?mls, invariant = InvInt 1\<rparr>
       \<or> mapState (automaton z) ?mls = Some (source ?t)"
      using src by (auto simp: addState_mapState split: option.splits)
  qed simp_all
qed

lemma setup_transitions_frame:
  assumes "setup_transitions z = Inr z'"
  shows "s z' = s z" "lenPath z' = lenPath z" "idxAssum z' = idxAssum z" "DELTA z' = DELTA z"
    "BOUND z' = BOUND z" "clockNum (automaton z') = clockNum (automaton z)"
    "clockTransition z' = map guard (transitionList (automaton z'))"
    "lenObservable z' = lenObservable z"
proof -
  from assms obtain A2 init rt where
    app: "appendTransition (addState (automaton z) (getMaxStateLabel (automaton z) + 1) (InvInt 1))
       (getMaxStateLabel (automaton z) + 1) (initState z) 2
       (map (\<lambda>i. ''c'' @ str_nat (i + 1) @ ''=0'') [0..<clockNum (automaton z)])
       (map int [0..<clockNum (automaton z)]) = Inr A2"
    and z': "s z' = s z \<and> lenPath z' = lenPath z \<and> idxAssum z' = idxAssum z \<and> DELTA z' = DELTA z \<and>
    BOUND z' = BOUND z \<and> automaton z' = A2 \<and> clockTransition z' = map guard (transitionList A2)
    \<and> lenObservable z' = lenObservable z"
    by (rule setup_transitions_Inr) simp
  from app have "clockNum A2 = clockNum (automaton z)"
    by (rule appendTransition_Inr) simp
  with z' show "s z' = s z" "lenPath z' = lenPath z" "idxAssum z' = idxAssum z" "DELTA z' = DELTA z"
    "BOUND z' = BOUND z" "clockNum (automaton z') = clockNum (automaton z)"
    "clockTransition z' = map guard (transitionList (automaton z'))"
    "lenObservable z' = lenObservable z"
    by simp_all
qed


lemma lenObservable_upd [simp]:
  "clock_constraints (z\<lparr>lenObservable := n\<rparr>) = clock_constraints z"
  "step_constraints (z\<lparr>lenObservable := n\<rparr>) = step_constraints z"
  "initial_constraints (z\<lparr>lenObservable := n\<rparr>) = initial_constraints z"
  "initial_constraints (z\<lparr>s := x\<rparr>) = initial_constraints z"
  by (simp_all add: clock_constraints_def step_constraints_def initial_constraints_def fun_eq_iff)

lemma transition_constraints_lenObservable [simp]:
  "transition_constraints (z\<lparr>lenObservable := n\<rparr>) = transition_constraints z"
  by (simp add: transition_constraints_def fun_eq_iff)

lemma Z3Model_init_Inr:
  assumes "Z3Model_init A BOUND' DELTA' = Inr z"
  obtains zs css t where
    "map_err (transition_constraints zs 0) [0..<getNbTransition (automaton zs)] = Inr css"
    "z = zs\<lparr>s := s zs @ initial_constraints zs @ concat css @ step_constraints zs 0 0 0,
            lenObservable := getNbTransition (automaton zs)\<rparr>"
    "lenPath zs = 1" "idxAssum zs = 0" "DELTA zs = DELTA'" "BOUND zs = BOUND'"
    "transitionList (automaton zs) = transitionList A @ [t]" "event t = 2"
    "clockNum (automaton zs) = clockNum A"
    "clockTransition zs = map guard (transitionList (automaton zs))"
    "guard t = map (\<lambda>i. ''c'' @ str_nat (i + 1) @ ''=0'') [0..<clockNum A]"
proof -
  let ?z0 = "initialize_z3_variables
       \<lparr>automaton = A, BOUND = BOUND', DELTA = DELTA', initState = 0, nextTransition = [],
        idxAssum = 0, maxLabelTransition = 0, maxLabelState = 0, resetTransition = [],
        clockTransition = [], s = [], lenPath = 0, lenObservable = 0\<rparr>"
  from assms obtain zs where zs: "setup_transitions ?z0 = Inr zs"
    and add: "add_initial_constraints zs = Inr z"
    by (auto simp: Z3Model_init_def bind_err_Inr)
  let ?z1 = "zs\<lparr>s := s zs @ initial_constraints zs,
               lenObservable := getNbTransition (automaton zs)\<rparr>"
  from add have "addConstraintOnIdTransition ?z1 0 = Inr z"
    by (simp add: add_initial_constraints_def)
  then obtain css prev where
    css: "map_err (transition_constraints ?z1 0) [0..<getNbTransition (automaton ?z1)] = Inr css"
    and prev: "py_index (lenPath ?z1) (int 0 - 1) = Inr prev"
    and z: "z = ?z1\<lparr>s := s ?z1 @ concat css @ step_constraints ?z1 0 prev 0\<rparr>"
    by (rule addConstraintOnIdTransition_Inr)
  have fr: "lenPath zs = 1" "idxAssum zs = 0" "DELTA zs = DELTA'" "BOUND zs = BOUND'"
    "clockNum (automaton zs) = clockNum A"
    "clockTransition zs = map guard (transitionList (automaton zs))"
    using setup_transitions_frame[OF zs] by (simp_all add: initialize_z3_variables_def)
  from prev have prev0: "prev = 0"
    by (simp add: py_index_def fr split: if_splits)
  from zs obtain t where t: "transitionList (automaton zs) = transitionList (automaton ?z0) @ [t]"
    "event t = 2"
    "guard t = map (\<lambda>i. ''c'' @ str_nat (i + 1) @ ''=0'') [0..<clockNum (automaton ?z0)]"
    by (rule setup_transitions_appended)
  have cn: "clockNum (automaton ?z0) = clockNum A"
    by (simp add: initialize_z3_variables_def)
  show ?thesis
  proof (rule that[of zs css t])
    show "map_err (transition_constraints zs 0) [0..<getNbTransition (automaton zs)] = Inr css"
      using css by simp
    show "z = zs\<lparr>s := s zs @ initial_constraints zs @ concat css @ step_constraints zs 0 0 0,
            lenObservable := getNbTransition (automaton zs)\<rparr>"
      unfolding z prev0 by simp
    show "transitionList (automaton zs) = transitionList A @ [t]"
      using t(1) by (simp add: initialize_z3_variables_def)
    show "guard t = map (\<lambda>i. ''c'' @ str_nat (i + 1) @ ''=0'') [0..<clockNum A]"
      using t(3) by (simp only: cn)
  qed (simp_all add: fr t(2))
qed

lemma transition_constraints_label:
  assumes "transition_constraints z pos j = Inr cs" "holds m cs"
  shows "faultyPath m pos = int j \<Longrightarrow> idTransitionFaultyPath m pos = labelTransition m j"
    and "normalPath m pos = int j \<Longrightarrow> idTransitionNormalPath m pos = labelTransition m j"
  using assms
  by (auto simp: transition_constraints_def Let_def bind_err_Inr holds_def)

lemma holds_concat: "holds m (concat xss) = (\<forall>xs\<in>set xss. holds m xs)"
  by (induction xss) (simp_all add: holds_def)

lemma map_err_Inr_length: "map_err f xs = Inr ys \<Longrightarrow> length ys = length xs"
  by (induction xs arbitrary: ys) (auto split: sum.splits)

lemma map_err_Inr_nth:
  "map_err f xs = Inr ys \<Longrightarrow> i < length xs \<Longrightarrow> f (xs ! i) = Inr (ys ! i)"
proof (induction xs arbitrary: ys i)
  case Nil
  then show ?case by simp
next
  case (Cons x xs)
  then show ?case by (cases i) (auto split: sum.splits)
qed

text \<open>The label rule of the loop over the transitions, for every transition.\<close>

lemma transitions_label:
  assumes "map_err (transition_constraints z pos) [0..<n] = Inr css" "holds m (concat css)" "j < n"
  shows "faultyPath m pos = int j \<Longrightarrow> idTransitionFaultyPath m pos = labelTransition m j"
    and "normalPath m pos = int j \<Longrightarrow> idTransitionNormalPath m pos = labelTransition m j"
proof -
  from assms(1,3) have len: "j < length css" and tc: "transition_constraints z pos j = Inr (css ! j)"
    using map_err_Inr_length[OF assms(1)] map_err_Inr_nth[OF assms(1), of j] by simp_all
  from assms(2) len have h: "holds m (css ! j)"
    by (simp add: holds_concat)
  show "faultyPath m pos = int j \<Longrightarrow> idTransitionFaultyPath m pos = labelTransition m j"
    and "normalPath m pos = int j \<Longrightarrow> idTransitionNormalPath m pos = labelTransition m j"
    using transition_constraints_label[OF tc h] by simp_all
qed


lemma run_prelude_fields [simp]:
  "lenPath (run_prelude z) = lenPath z" "idxAssum (run_prelude z) = idxAssum z"
  "automaton (run_prelude z) = automaton z" "lenObservable (run_prelude z) = lenObservable z"
  "DELTA (run_prelude z) = DELTA z" "BOUND (run_prelude z) = BOUND z"
  by (simp_all add: run_prelude_def)

lemma run_prelude_holds:
  assumes "holds m (s (run_prelude z))"
  shows "holds m (s z)"
    and "assumD m \<Longrightarrow> delta m = real_of_int (DELTA z)"
    and "j < getNbTransition (automaton z) \<Longrightarrow>
           labelTransition m j = event (transitionList (automaton z) ! j)"
  using assms by (auto simp: run_prelude_def holds_append holds_def list_all_iff)

lemma query_Inr:
  assumes "query A BOUND' DELTA' k = Inr z"
  obtains zi where "Z3Model_init A BOUND' DELTA' = Inr zi" "rounds k (run_prelude zi) = Inr z"
  using assms by (auto simp: query_def bind_err_Inr)

text \<open>What every model of a query satisfies at step 0.\<close>

lemma query_step0:
  assumes q: "query A BOUND' DELTA' k = Inr z" and h: "holds m (s z)"
  shows "cptFaultOccursByThePast m 0 = 0"
    and "lengthFaultyPath m 0 = 0" and "lengthNormalPath m 0 = 0"
    and "\<not> faultOccursByThePast m 0"
    and "holds m (step_constraints z 0 0 0)"
    and "0 < lenObservable z" and "lenPath z = k + 1" and "idxAssum z = k"
    and "DELTA z = DELTA'"
proof -
  from q obtain zi where zi: "Z3Model_init A BOUND' DELTA' = Inr zi"
    and r: "rounds k (run_prelude zi) = Inr z"
    by (rule query_Inr)
  from zi obtain zs css t where
    css: "map_err (transition_constraints zs 0) [0..<getNbTransition (automaton zs)] = Inr css"
    and zi_eq: "zi = zs\<lparr>s := s zs @ initial_constraints zs @ concat css @ step_constraints zs 0 0 0,
            lenObservable := getNbTransition (automaton zs)\<rparr>"
    and fr: "lenPath zs = 1" "idxAssum zs = 0" "DELTA zs = DELTA'"
    and tl: "transitionList (automaton zs) = transitionList A @ [t]" and ev: "event t = 2"
    by (rule Z3Model_init_Inr)
  let ?nb = "getNbTransition (automaton zs)"
  have nb: "?nb = length (transitionList A) + 1"
    by (simp add: getNbTransition_def tl)
  from rounds_frame[OF r] have frz: "lenPath z = k + 1" "idxAssum z = k"
    "automaton z = automaton zs" "lenObservable z = ?nb" "DELTA z = DELTA'"
    by (simp_all add: zi_eq fr)
  from rounds_holds[OF r h] have hp: "holds m (s (run_prelude zi))" .
  from run_prelude_holds(1)[OF hp] have hi: "holds m (initial_constraints zs)"
    "holds m (concat css)" "holds m (step_constraints zs 0 0 0)"
    by (simp_all add: zi_eq holds_append)
  from hi(1) have init: "cptFaultOccursByThePast m 0 = 0" "lengthFaultyPath m 0 = 0"
    "lengthNormalPath m 0 = 0" "faultyPath m 0 = int ?nb - 1"
    "faultOccursByThePast m 0 = (idTransitionFaultyPath m 0 = FAULT)"
    by (simp_all add: initial_constraints_def holds_append holds_def)
  have last: "?nb - 1 < ?nb" by (simp add: nb)
  from init(4) have "faultyPath m 0 = int (?nb - 1)" by (simp add: nb)
  from transitions_label(1)[OF css hi(2) last this]
  have "idTransitionFaultyPath m 0 = labelTransition m (?nb - 1)" .
  also from run_prelude_holds(3)[OF hp, of "?nb - 1"]
  have "labelTransition m (?nb - 1) = event (transitionList (automaton zs) ! (?nb - 1))"
    by (simp add: zi_eq nb)
  also have "\<dots> = 2" by (simp add: tl nb ev)
  finally have "idTransitionFaultyPath m 0 = 2" .
  with init(5) show "\<not> faultOccursByThePast m 0" by (simp add: FAULT_def)
  show "cptFaultOccursByThePast m 0 = 0" "lengthFaultyPath m 0 = 0" "lengthNormalPath m 0 = 0"
    by (rule init)+
  have "step_constraints z = step_constraints zs"
    by (simp add: step_constraints_def fun_eq_iff frz)
  with hi(3) show "holds m (step_constraints z 0 0 0)" by simp
  show "0 < lenObservable z" by (simp add: frz nb)
  show "lenPath z = k + 1" "idxAssum z = k" "DELTA z = DELTA'" by (rule frz)+
qed

text \<open>What every model of a query satisfies at a step added by a round.\<close>

lemma query_step:
  assumes q: "query A BOUND' DELTA' k = Inr z" and h: "holds m (s z)"
    and i: "1 \<le> i" "i \<le> k"
  shows "holds m (step_constraints z i (i - 1) i)"
    and "holds m (incBound_after i)"
    and "i < lenObservable z"
proof -
  from q obtain zi where zi: "Z3Model_init A BOUND' DELTA' = Inr zi"
    and r: "rounds k (run_prelude zi) = Inr z"
    by (rule query_Inr)
  from zi have len: "lenPath zi = 1"
    by (rule Z3Model_init_Inr) simp
  from i have "i - 1 < k" by simp
  from rounds_earlier[OF r this] obtain y y' where y: "rounds (i - 1) (run_prelude zi) = Inr y"
    and rr: "run_round y = Inr y'" and hy: "\<And>m. holds m (s z) \<Longrightarrow> holds m (s y')"
    by blast
  from rounds_frame[OF y] i len have fy: "lenPath y = i" "automaton y = automaton zi"
    "lenObservable y = lenObservable zi"
    by simp_all
  from rounds_frame[OF r] have fz: "automaton z = automaton zi" "lenObservable z = lenObservable zi"
    by simp_all
  have sc: "step_constraints z = step_constraints y"
    by (simp add: step_constraints_def fun_eq_iff fy fz)
  from run_round_holds(3,4)[OF rr hy[OF h]]
  show "holds m (step_constraints z i (i - 1) i)" "holds m (incBound_after i)"
    by (simp_all add: fy sc)
  from run_round_frame(7)[OF rr] show "i < lenObservable z"
    by (simp add: fy fz)
qed



subsection \<open>Equality guards\<close>


lemma is_digit_digit_char: "d < 10 \<Longrightarrow> is_digit (digit_char d)"
  by (simp add: is_digit_def digit_char_def)

lemma str_nat_digits: "c \<in> set (str_nat n) \<Longrightarrow> is_digit c"
proof (induction n rule: str_nat.induct)
  case (1 n)
  show ?case
  proof (cases "n < 10")
    case True
    with "1.prems" show ?thesis
      by (simp add: str_nat.simps[of n] is_digit_digit_char)
  next
    case False
    with "1.prems" "1.IH" show ?thesis
      by (auto simp: str_nat.simps[of n] is_digit_digit_char)
  qed
qed

lemma str_nat_no_letters:
  "CHR ''c'' \<notin> set (str_nat n)" "CHR ''>'' \<notin> set (str_nat n)"
  using str_nat_digits[of "CHR ''c''" n] str_nat_digits[of "CHR ''>''" n]
  by (auto simp: is_digit_def)

lemma split_from_absent:
  "c \<notin> set xs \<Longrightarrow> split_from [c] acc xs = [acc @ xs]"
  by (induction xs arbitrary: acc) auto

lemma split_self: "xs \<noteq> [] \<Longrightarrow> split xs xs = [[], []]"
  by (cases xs) (simp_all add: split_def)

lemma split_after_c:
  "CHR ''c'' \<notin> set xs \<Longrightarrow> split (CHR ''c'' # xs) ''c'' = [[], xs]"
  by (simp add: split_def split_from_absent)

lemma split_no_gt:
  "CHR ''>'' \<notin> set xs \<Longrightarrow> split xs ''>'' = [xs]"
  by (simp add: split_def split_from_absent)

lemma parse_one_equality: "parse_one (CHR ''c'' # str_nat k @ ''=0'') = Inr []"
proof -
  let ?rest = "str_nat k @ ''=0''"
  have c: "CHR ''c'' \<notin> set ?rest" and g: "CHR ''>'' \<notin> set ?rest"
    using str_nat_no_letters[of k] by auto
  have 1: "py_nth (split (CHR ''c'' # ?rest) ''c'') 1 = Inr ?rest"
    using split_after_c[OF c] by (simp add: py_nth_def py_index_def)
  have 2: "py_nth (split ?rest ''>'') 0 = Inr ?rest"
    using split_no_gt[OF g] by (simp add: py_nth_def py_index_def)
  have 3: "split (CHR ''c'' # ?rest) (CHR ''c'' # ?rest) = [[], []]"
    by (rule split_self) simp
  show ?thesis
    by (simp add: parse_one_def 1 2 3 parse_parts_def)
qed

lemma parseConstraints_all_empty:
  "(\<And>x. x \<in> set xs \<Longrightarrow> parse_one x = Inr []) \<Longrightarrow> parseConstraints xs = Inr []"
  by (induction xs) simp_all

text \<open>
  Claim C10. parseConstraints drops equality atoms: on the guard of the transition that
  setup_transitions appends (\<^verbatim>\<open>c<i>=0\<close> for every clock) it returns the empty
  list, so the clock constraint of that transition at any step and on either path is the
  empty conjunction, true in every model: the guard is never enforced.
\<close>

theorem parseConstraints_drops_equality:
  "parseConstraints (map (\<lambda>i. ''c'' @ str_nat (i + 1) @ ''=0'') [0..<n]) = Inr []
   \<and> guard_constraint n (map (\<lambda>i. ''c'' @ str_nat (i + 1) @ ''=0'') [0..<n]) pos path_type
       = Inr (\<lambda>m. True)"
proof -
  have p: "parseConstraints (map (\<lambda>i. ''c'' @ str_nat (i + 1) @ ''=0'') [0..<n]) = Inr []"
    by (rule parseConstraints_all_empty) (auto simp: parse_one_equality)
  then show ?thesis
    by (simp add: guard_constraint_def bind_err_def transConstraints_def z3_And_def)
qed

theorem parseConstraints_drops_equality_witness:
  "parseConstraints [''c1=0'', ''c2=0''] = Inr []
   \<and> guard_constraint 2 [''c1=0'', ''c2=0''] 0 ''f'' = Inr (\<lambda>m. True)"
proof -
  have "map (\<lambda>i. ''c'' @ str_nat (i + 1) @ ''=0'') [0..<2] = [''c1=0'', ''c2=0'']"
    by code_simp
  with parseConstraints_drops_equality[of 2 0 "''f''"] show ?thesis by simp
qed




subsection \<open>The small input, evaluated\<close>

lemma example_query_answered:
  "\<exists>A z. example_automaton = Inr A \<and> query A 3 0 1 = Inr z \<and> answers example_model z"
proof -
  have E: "case example_automaton of
          Inl e \<Rightarrow> False
        | Inr A \<Rightarrow> (case query A 3 0 1 of Inl e \<Rightarrow> False | Inr z \<Rightarrow> answers example_model z)"
    by code_simp
  show ?thesis
  proof (cases example_automaton)
    case (Inl e)
    from E show ?thesis unfolding Inl by simp
  next
    case A: (Inr A)
    from E have Q: "case query A 3 0 1 of Inl e \<Rightarrow> False | Inr z \<Rightarrow> answers example_model z"
      unfolding A by simp
    show ?thesis
    proof (cases "query A 3 0 1")
      case (Inl e)
      from Q show ?thesis unfolding Inl by simp
    next
      case z: (Inr z)
      from Q have "answers example_model z" unfolding z by simp
      with A z show ?thesis by blast
    qed
  qed
qed

subsection \<open>Properties of every model of a query\<close>

text \<open>
  Claim C2. In every model the solver returns for the query of a round \<open>k\<close>, at every
  step \<open>i\<close> of the horizon: if checkSynchro holds at \<open>i\<close>, the two runs fire the
  same event label and their global clocks agree; and, the observability literals being
  assumed, this is the case as soon as either run fires an observable event (a label
  above NO_OBS).
\<close>

theorem synchro_same_event_same_time:
  assumes "query A BOUND' DELTA' k = Inr z" and "answers m z" and "i \<le> k"
  shows "(checkSynchro m i \<longrightarrow>
            idTransitionFaultyPath m i = idTransitionNormalPath m i \<and>
            globalClockFaultyPath m i = globalClockNormalPath m i)
       \<and> (idTransitionFaultyPath m i > NO_OBS \<or> idTransitionNormalPath m i > NO_OBS \<longrightarrow>
            idTransitionFaultyPath m i = idTransitionNormalPath m i \<and>
            globalClockFaultyPath m i = globalClockNormalPath m i)"
proof -
  from assms(2) have h: "holds m (s z)" and a: "holds m (listAssum z)"
    by (simp_all add: answers_def)
  have step: "holds m (step_constraints z i (i - 1) i) \<and> i < lenObservable z"
  proof (cases "i = 0")
    case True
    with query_step0(5,6)[OF assms(1) h] show ?thesis by simp
  next
    case False
    with query_step(1,3)[OF assms(1) h, of i] assms(3) show ?thesis by simp
  qed
  from a step have obs: "isObservableTransition m i"
    by (simp add: listAssum_def holds_append holds_def list_all_iff)
  from step_constraints_synchro[of m z i "i - 1" i] step obs show ?thesis
    by blast
qed

theorem synchro_same_event_same_time_witness:
  "\<exists>A z. example_automaton = Inr A \<and> query A 3 0 1 = Inr z \<and> answers example_model z
     \<and> checkSynchro example_model 1
     \<and> idTransitionFaultyPath example_model 1 > NO_OBS
     \<and> idTransitionFaultyPath example_model 1 = idTransitionNormalPath example_model 1
     \<and> globalClockFaultyPath example_model 1 = globalClockNormalPath example_model 1"
proof -
  from example_query_answered obtain A z where ex: "example_automaton = Inr A"
    and q: "query A 3 0 1 = Inr z" and a: "answers example_model z"
    by blast
  have c: "checkSynchro example_model 1" "idTransitionFaultyPath example_model 1 > NO_OBS"
    by (simp_all add: example_model_def NO_OBS_def)
  have le: "(1::nat) \<le> 1" by simp
  from synchro_same_event_same_time[OF q a le] c
  have "idTransitionFaultyPath example_model 1 = idTransitionNormalPath example_model 1
     \<and> globalClockFaultyPath example_model 1 = globalClockNormalPath example_model 1"
    by blast
  with ex q a c show ?thesis by blast
qed

text \<open>
  Claim C7. In every model of the query of a round \<open>k\<close>, at every step \<open>i\<close> of the
  horizon, length_fp[i] is the number of steps 1..i at which the faulty run does not take
  the stutter transition (index NOP_TRANSITION), it is at most \<open>i\<close>, and the same holds
  of length_np and the normal run. (Step 0 is the start of both runs; the counters start
  at 0 there.)
\<close>

theorem length_counts_non_nop_steps:
  assumes "query A BOUND' DELTA' k = Inr z" and "holds m (s z)" and "i \<le> k"
  shows "lengthFaultyPath m i =
           int (length (filter (\<lambda>j. faultyPath m j \<noteq> int NOP_TRANSITION) [1..<Suc i]))
       \<and> lengthFaultyPath m i \<le> int i
       \<and> lengthNormalPath m i =
           int (length (filter (\<lambda>j. normalPath m j \<noteq> int NOP_TRANSITION) [1..<Suc i]))
       \<and> lengthNormalPath m i \<le> int i"
  using assms(3)
proof (induction i)
  case 0
  from query_step0(2,3)[OF assms(1,2)] show ?case by simp
next
  case (Suc i)
  then have "i \<le> k" and le: "1 \<le> Suc i" "Suc i \<le> k" by simp_all
  from query_step(1)[OF assms(1,2) le]
  have st: "holds m (step_constraints z (Suc i) i (Suc i))" by simp
  from step_constraints_length[OF st] Suc.IH[OF \<open>i \<le> k\<close>] show ?case
    by (simp add: NOP_TRANSITION_def)
qed

theorem length_counts_non_nop_steps_witness:
  "\<exists>A z. example_automaton = Inr A \<and> query A 3 0 1 = Inr z \<and> holds example_model (s z)
     \<and> lengthFaultyPath example_model 1 =
           int (length (filter (\<lambda>j. faultyPath example_model j \<noteq> int NOP_TRANSITION) [1..<Suc 1]))
     \<and> lengthFaultyPath example_model 1 = 1
     \<and> lengthNormalPath example_model 1 =
           int (length (filter (\<lambda>j. normalPath example_model j \<noteq> int NOP_TRANSITION) [1..<Suc 1]))
     \<and> lengthNormalPath example_model 1 = 1"
proof -
  from example_query_answered obtain A z where ex: "example_automaton = Inr A"
    and q: "query A 3 0 1 = Inr z" and a: "answers example_model z"
    by blast
  from a have h: "holds example_model (s z)" by (simp add: answers_def)
  have le: "(1::nat) \<le> 1" by simp
  have v: "lengthFaultyPath example_model 1 = 1" "lengthNormalPath example_model 1 = 1"
    by (simp_all add: example_model_def)
  from length_counts_non_nop_steps[OF q h le] ex q h v show ?thesis
    by blast
qed

text \<open>
  Claim C3. In every model of the query of a round \<open>k\<close>, at every step \<open>i\<close> of the
  horizon: cptFault[0] = 0; cptFault[i] = 0 whenever faultOccurs[i] is false; and whenever
  faultOccurs[i] is true, cptFault[i+1] = cptFault[i] + delay_fp[i+1].
\<close>

theorem fault_counter_rules:
  assumes "query A BOUND' DELTA' k = Inr z" and "holds m (s z)" and "i \<le> k"
  shows "cptFaultOccursByThePast m 0 = 0
       \<and> (\<not> faultOccursByThePast m i \<longrightarrow> cptFaultOccursByThePast m i = 0)
       \<and> (faultOccursByThePast m i \<longrightarrow>
            cptFaultOccursByThePast m (i + 1) =
              cptFaultOccursByThePast m i + delayClockFaultyPath m (i + 1))"
proof (cases "i = 0")
  case True
  with query_step0(1,4)[OF assms(1,2)] show ?thesis by simp
next
  case False
  with assms(3) have le: "1 \<le> i" "i \<le> k" by simp_all
  from query_step(2)[OF assms(1,2) le] have af: "holds m (incBound_after i)" .
  from incBound_after_fault[OF af] query_step0(1)[OF assms(1,2)] show ?thesis
    by auto
qed


theorem fault_counter_rules_witness:
  "\<exists>A z. example_automaton = Inr A \<and> query A 3 0 1 = Inr z \<and> holds example_model (s z)
     \<and> cptFaultOccursByThePast example_model 0 = 0
     \<and> \<not> faultOccursByThePast example_model 1
     \<and> cptFaultOccursByThePast example_model 1 = 0"
proof -
  from example_query_answered obtain A z where ex: "example_automaton = Inr A"
    and q: "query A 3 0 1 = Inr z" and a: "answers example_model z"
    by blast
  from a have h: "holds example_model (s z)" by (simp add: answers_def)
  have le: "(1::nat) \<le> 1" by simp
  have v: "\<not> faultOccursByThePast example_model 1"
    by (simp add: example_model_def)
  from fault_counter_rules[OF q h le] ex q h v show ?thesis
    by blast
qed




subsection \<open>The driver\<close>

lemma Z3Model_init_fields:
  assumes "Z3Model_init A BOUND' DELTA' = Inr z"
  shows "BOUND z = BOUND'" "DELTA z = DELTA'" "lenPath z = 1" "idxAssum z = 0"
    "lenObservable z = getNbTransition (automaton z)"
    "getNbTransition (automaton z) = length (transitionList A) + 1"
proof -
  from assms obtain zs css t where
    z: "z = zs\<lparr>s := s zs @ initial_constraints zs @ concat css @ step_constraints zs 0 0 0,
            lenObservable := getNbTransition (automaton zs)\<rparr>"
    and fr: "lenPath zs = 1" "idxAssum zs = 0" "DELTA zs = DELTA'" "BOUND zs = BOUND'"
    and tl: "transitionList (automaton zs) = transitionList A @ [t]"
    by (rule Z3Model_init_Inr)
  show "BOUND z = BOUND'" "DELTA z = DELTA'" "lenPath z = 1" "idxAssum z = 0"
    "lenObservable z = getNbTransition (automaton z)"
    "getNbTransition (automaton z) = length (transitionList A) + 1"
    by (simp_all add: z fr tl getNbTransition_def)
qed

lemma run_no_rounds: "BOUND z \<le> 0 \<Longrightarrow> run check z = ([], ReportedUnsat)"
  by (simp add: run_def run_loop.simps[of check "run_prelude z" 1])

lemma proposing_sound: "sound (proposing m)"
  by (simp add: sound_def proposing_def)

lemma example_step0:
  "\<exists>A z. example_automaton = Inr A \<and> query A 0 0 0 = Inr z \<and> holds example_model (s z)"
proof -
  have E: "case example_automaton of
          Inl e \<Rightarrow> False
        | Inr A \<Rightarrow> (case query A 0 0 0 of Inl e \<Rightarrow> False | Inr z \<Rightarrow> holds example_model (s z))"
    by code_simp
  show ?thesis
  proof (cases example_automaton)
    case (Inl e)
    from E show ?thesis unfolding Inl by simp
  next
    case A: (Inr A)
    from E have Q: "case query A 0 0 0 of Inl e \<Rightarrow> False | Inr z \<Rightarrow> holds example_model (s z)"
      unfolding A by simp
    show ?thesis
    proof (cases "query A 0 0 0")
      case (Inl e)
      from Q show ?thesis unfolding Inl by simp
    next
      case z: (Inr z)
      from Q have "holds example_model (s z)" unfolding z by simp
      with A z show ?thesis by blast
    qed
  qed
qed

text \<open>
  Claim C8. With BOUND = 0 (or less) the loop of run is not entered: no step is added to
  the initial one, the solver is never called, nothing is printed before the verdict, and
  run reports "The problem is UNSAT", whatever DELTA is and whatever the solver would
  answer. The exception of the claim never applies: a SAT at step 0 needs a model of the
  assertions of step 0 in which the fault has occurred at step 0, and there is none,
  since both runs are pinned at step 0 to the appended transition, whose event is 2.
\<close>

theorem run_bound_zero_reports_unsat:
  assumes "Z3Model_init A BOUND' DELTA' = Inr z" and "BOUND' \<le> 0"
  shows "run check z = ([], ReportedUnsat) \<and> main check A BOUND' DELTA' = ([], ReportedUnsat)
       \<and> (\<forall>m. holds m (s (run_prelude z)) \<longrightarrow> \<not> faultOccursByThePast m 0)"
proof -
  from Z3Model_init_fields(1)[OF assms(1)] assms(2) have "BOUND z \<le> 0" by simp
  then have r: "run check z = ([], ReportedUnsat)" by (rule run_no_rounds)
  then have m: "main check A BOUND' DELTA' = ([], ReportedUnsat)"
    by (simp add: main_def assms(1))
  have q: "query A BOUND' DELTA' 0 = Inr (run_prelude z)"
    by (simp add: query_def assms(1) bind_err_def)
  have "\<not> faultOccursByThePast m 0" if "holds m (s (run_prelude z))" for m
    using q that by (rule query_step0(4))
  with r m show ?thesis by blast
qed

theorem run_bound_zero_reports_unsat_witness:
  "\<exists>A z. example_automaton = Inr A \<and> Z3Model_init A 0 0 = Inr z \<and> (0::int) \<le> 0
     \<and> run (proposing example_model) z = ([], ReportedUnsat)
     \<and> main (proposing example_model) A 0 0 = ([], ReportedUnsat)
     \<and> holds example_model (s (run_prelude z))
     \<and> faultOccursByThePast example_model 0 = False"
proof -
  from example_step0 obtain A zq where ex: "example_automaton = Inr A"
    and q: "query A 0 0 0 = Inr zq" and h: "holds example_model (s zq)"
    by blast
  from q obtain zi where zi: "Z3Model_init A 0 0 = Inr zi"
    and r: "rounds 0 (run_prelude zi) = Inr zq"
    by (rule query_Inr)
  from r h have hp: "holds example_model (s (run_prelude zi))" by simp
  have le: "(0::int) \<le> 0" by simp
  note th = run_bound_zero_reports_unsat[OF zi le, of "proposing example_model"]
  from th have v: "run (proposing example_model) zi = ([], ReportedUnsat)"
    "main (proposing example_model) A 0 0 = ([], ReportedUnsat)"
    by blast+
  from th hp have "faultOccursByThePast example_model 0 = False" by blast
  with ex zi le v hp show ?thesis by blast
qed




lemma bind_err_Inr_right: "bind_err x Inr = x"
  by (cases x) (simp_all add: bind_err_def)

lemma bind_err_assoc: "bind_err (bind_err x f) g = bind_err x (\<lambda>v. bind_err (f v) g)"
  by (cases x) (simp_all add: bind_err_def)

lemma rounds_Suc_front: "rounds (Suc k) z = bind_err (run_round z) (rounds k)"
proof (induction k)
  case 0
  show ?case by (simp add: bind_err_Inr_right) (simp add: bind_err_def)
next
  case (Suc k)
  have "rounds (Suc (Suc k)) z = bind_err (rounds (Suc k) z) run_round" by simp
  also have "\<dots> = bind_err (bind_err (run_round z) (rounds k)) run_round"
    by (simp only: Suc.IH)
  also have "\<dots> = bind_err (run_round z) (\<lambda>v. bind_err (rounds k v) run_round)"
    by (rule bind_err_assoc)
  also have "\<dots> = bind_err (run_round z) (rounds (Suc k))"
    by (rule arg_cong[of _ _ "bind_err (run_round z)"]) (rule ext, simp)
  finally show ?case .
qed

text \<open>A model that run reports is the solver's answer to the query of some round.\<close>

lemma run_loop_sat:
  assumes "run_loop check z cpt = (printed, ReportedSat m c)"
  shows "\<exists>k z'. rounds (Suc k) z = Inr z' \<and> check (s z') (listAssum z') = sat m
           \<and> c = cpt + int k + 1"
  using assms
proof (induction check z cpt arbitrary: printed rule: run_loop.induct)
  case (1 check z cpt)
  note unf = run_loop.simps[of check z cpt]
  from "1.prems" have le: "cpt \<le> BOUND z"
    by (cases "cpt \<le> BOUND z") (simp_all add: unf)
  from "1.prems" le obtain b where b: "run_round z = Inr b"
    by (cases "run_round z") (simp_all add: unf)
  have r1: "rounds (Suc 0) z = Inr b"
    by (simp add: bind_err_def b)
  have front: "\<And>k. rounds (Suc (Suc k)) z = rounds (Suc k) b"
    by (simp only: rounds_Suc_front[of "Suc _" z] b) (simp add: bind_err_def)
  show ?case
  proof (cases "check (s b) (listAssum b)")
    case (sat m')
    with "1.prems" le b have "m' = m" "c = cpt + 1"
      by (simp_all add: unf)
    with sat r1 show ?thesis by (intro exI[of _ 0] exI[of _ b]) (simp del: rounds.simps)
  next
    case unsat
    with "1.prems" le b obtain printed' where
      "run_loop check b (cpt + 1) = (printed', ReportedSat m c)"
      by (cases "run_loop check b (cpt + 1)") (simp add: unf)
    from "1.IH"(1)[OF le b unsat this] obtain k z' where
      "rounds (Suc k) b = Inr z'" "check (s z') (listAssum z') = sat m" "c = cpt + 1 + int k + 1"
      by blast
    then show ?thesis
      by (intro exI[of _ "Suc k"] exI[of _ z']) (simp add: front del: rounds.simps)
  next
    case unknown
    with "1.prems" le b obtain printed' where
      "run_loop check b (cpt + 1) = (printed', ReportedSat m c)"
      by (cases "run_loop check b (cpt + 1)") (simp add: unf)
    from "1.IH"(2)[OF le b unknown this] obtain k z' where
      "rounds (Suc k) b = Inr z'" "check (s z') (listAssum z') = sat m" "c = cpt + 1 + int k + 1"
      by blast
    then show ?thesis
      by (intro exI[of _ "Suc k"] exI[of _ z']) (simp add: front del: rounds.simps)
  qed
qed

text \<open>
  With a sound solver, a model that run reports answers the query of its round, and the
  assumption literal of that round fixes the last element of the fault-counter list to
  DELTA.
\<close>

lemma run_reported_model:
  assumes "sound check" and "Z3Model_init A BOUND' DELTA' = Inr z"
    and "run check z = (printed, ReportedSat m c)"
  shows "\<exists>k z'. query A BOUND' DELTA' (Suc k) = Inr z' \<and> answers m z' \<and> c = int k + 2
           \<and> cptFaultOccursByThePast m (k + 2) = real_of_int DELTA'"
proof -
  from assms(3) have "run_loop check (run_prelude z) 1 = (printed, ReportedSat m c)"
    by (simp add: run_def)
  from run_loop_sat[OF this] obtain k z' where
    r: "rounds (Suc k) (run_prelude z) = Inr z'" and c: "check (s z') (listAssum z') = sat m"
    and ck: "c = int k + 2"
    by auto
  from assms(1) c have h: "holds m (s z')" and a: "holds m (listAssum z')"
    by (auto simp: sound_def)
  have q: "query A BOUND' DELTA' (Suc k) = Inr z'"
    using r by (simp add: query_def assms(2) bind_err_def del: rounds.simps)
  from r obtain y where y: "rounds k (run_prelude z) = Inr y" and rr: "run_round y = Inr z'"
    unfolding rounds_Suc_Inr by blast
  from a have "assumF m (idxAssum z')"
    by (simp add: listAssum_def holds_def)
  with run_round_holds(6)[OF rr h]
  have "cptFaultOccursByThePast m (lenPath z') = real_of_int (DELTA z')" by simp
  moreover from query_step0(7,9)[OF q h] have "lenPath z' = k + 2" "DELTA z' = DELTA'"
    by simp_all
  ultimately have "cptFaultOccursByThePast m (k + 2) = real_of_int DELTA'" by simp
  with q h a ck show ?thesis by (auto simp: answers_def)
qed




lemma example_main_sat:
  "\<exists>m. example_main (proposing example_model) 3 0 = ([], ReportedSat m 2)
     \<and> \<not> faultOccursByThePast m 1 \<and> cptFaultOccursByThePast m 2 = 0"
proof -
  have E: "case example_main (proposing example_model) 3 0 of
             (printed, v) \<Rightarrow>
               (case v of
                  ReportedSat m c \<Rightarrow>
                    printed = [] \<and> c = 2 \<and> \<not> faultOccursByThePast m 1
                    \<and> cptFaultOccursByThePast m 2 = 0
                | ReportedUnsat \<Rightarrow> False
                | Raised e \<Rightarrow> False)"
    by code_simp
  obtain printed v where pv: "example_main (proposing example_model) 3 0 = (printed, v)"
    by (cases "example_main (proposing example_model) 3 0")
  from E have V: "case v of
                  ReportedSat m c \<Rightarrow>
                    printed = [] \<and> c = 2 \<and> \<not> faultOccursByThePast m 1
                    \<and> cptFaultOccursByThePast m 2 = 0
                | ReportedUnsat \<Rightarrow> False
                | Raised e \<Rightarrow> False"
    unfolding pv prod.case .
  show ?thesis
  proof (cases v)
    case (ReportedSat m c)
    from V have "printed = [] \<and> c = 2 \<and> \<not> faultOccursByThePast m 1
                    \<and> cptFaultOccursByThePast m 2 = 0"
      unfolding ReportedSat verdict.case .
    with pv ReportedSat show ?thesis by (intro exI[of _ m]) simp
  next
    case ReportedUnsat
    from V have False unfolding ReportedUnsat verdict.case .
    then show ?thesis ..
  next
    case (Raised e)
    from V have False unfolding Raised verdict.case .
    then show ?thesis ..
  qed
qed

text \<open>
  Claim C1 on the small input (BOUND = 3, DELTA = 0), with a sound solver that proposes
  \<open>example_model\<close>: run reports sat in the first round, and in the reported model the
  last element of the fault-counter list equals DELTA, but faultOccurs at the last step
  is false. The literal \<open>assumFO\<close> that would force it is asserted
  (\<^verbatim>\<open>Implies(assumFO, ...)\<close>) and never passed to \<^verbatim>\<open>check\<close>.
\<close>

theorem run_reports_sat_without_fault:
  "\<exists>m. example_main (proposing example_model) 3 0 = ([], ReportedSat m 2)
     \<and> cptFaultOccursByThePast m 2 = real_of_int 0
     \<and> \<not> faultOccursByThePast m 1"
  using example_main_sat by auto




subsection \<open>The stutter sentinel\<close>

lemma sum_case_Inr:
  "(case x of Inl e \<Rightarrow> False | Inr v \<Rightarrow> P v) \<Longrightarrow> \<exists>v. x = Inr v \<and> P v"
  by (cases x) simp_all

lemma incBound_before_last_active:
  assumes "holds m (incBound_before z idx)"
  shows "faultyPath m idx = int NOP_TRANSITION \<Longrightarrow>
           lastlyActiveFaultyPath m idx = lastlyActiveFaultyPath m (idx - 1)"
    and "faultyPath m idx \<noteq> int NOP_TRANSITION \<Longrightarrow>
           lastlyActiveFaultyPath m idx = faultyPath m idx"
    and "normalPath m idx = int NOP_TRANSITION \<Longrightarrow>
           lastlyActiveNormalPath m idx = lastlyActiveNormalPath m (idx - 1)"
    and "normalPath m idx \<noteq> int NOP_TRANSITION \<Longrightarrow>
           lastlyActiveNormalPath m idx = normalPath m idx"
  using assms by (simp_all add: incBound_before_def holds_append holds_def)

lemma step_constraints_nop_delay:
  assumes "holds m (step_constraints z pos prev obs)"
  shows "faultyPath m pos = 0 \<Longrightarrow> delayClockFaultyPath m (pos + 1) = 0"
    and "normalPath m pos = 0 \<Longrightarrow> delayClockNormalPath m (pos + 1) = 0"
  using assms by (simp_all add: step_constraints_def holds_append holds_def)

text \<open>The transition the constructor of Z3Model appends, and the pin of step 0.\<close>

lemma query_start:
  assumes q: "query A BOUND' DELTA' k = Inr z" and h: "holds m (s z)"
  obtains t where "transitionList (automaton z) = transitionList A @ [t]"
    "event t = 2"
    "guard t = map (\<lambda>i. ''c'' @ str_nat (i + 1) @ ''=0'') [0..<clockNum A]"
    "faultyPath m 0 = int (getNbTransition (automaton z)) - 1"
    "normalPath m 0 = int (getNbTransition (automaton z)) - 1"
proof -
  from q obtain zi where zi: "Z3Model_init A BOUND' DELTA' = Inr zi"
    and r: "rounds k (run_prelude zi) = Inr z"
    by (rule query_Inr)
  from zi obtain zs css t where
    zi_eq: "zi = zs\<lparr>s := s zs @ initial_constraints zs @ concat css @ step_constraints zs 0 0 0,
            lenObservable := getNbTransition (automaton zs)\<rparr>"
    and tl: "transitionList (automaton zs) = transitionList A @ [t]" and ev: "event t = 2"
    and g: "guard t = map (\<lambda>i. ''c'' @ str_nat (i + 1) @ ''=0'') [0..<clockNum A]"
    by (rule Z3Model_init_Inr)
  from rounds_frame[OF r] have az: "automaton z = automaton zs"
    by (simp add: zi_eq)
  from rounds_holds[OF r h] have hp: "holds m (s (run_prelude zi))" .
  from run_prelude_holds(1)[OF hp] have "holds m (initial_constraints zs)"
    by (simp add: zi_eq holds_append)
  then have pin: "faultyPath m 0 = int (getNbTransition (automaton zs)) - 1"
    "normalPath m 0 = int (getNbTransition (automaton zs)) - 1"
    by (simp_all add: initial_constraints_def holds_append holds_def)
  show ?thesis
    by (rule that[of t]) (simp_all add: az tl ev g pin)
qed

text \<open>The rules of a step added by a round that test for the stutter transition.\<close>

lemma query_step_nop:
  assumes q: "query A BOUND' DELTA' k = Inr z" and h: "holds m (s z)"
    and i: "1 \<le> i" "i \<le> k"
  shows "faultyPath m i = int NOP_TRANSITION \<Longrightarrow>
           lastlyActiveFaultyPath m i = lastlyActiveFaultyPath m (i - 1)"
    and "normalPath m i = int NOP_TRANSITION \<Longrightarrow>
           lastlyActiveNormalPath m i = lastlyActiveNormalPath m (i - 1)"
proof -
  from q obtain zi where zi: "Z3Model_init A BOUND' DELTA' = Inr zi"
    and r: "rounds k (run_prelude zi) = Inr z"
    by (rule query_Inr)
  from i have "i - 1 < k" by simp
  from rounds_earlier[OF r this] obtain y y' where y: "rounds (i - 1) (run_prelude zi) = Inr y"
    and rr: "run_round y = Inr y'" and hy: "\<And>m. holds m (s z) \<Longrightarrow> holds m (s y')"
    by blast
  from rounds_frame[OF y] i Z3Model_init_fields(3)[OF zi] have ly: "lenPath y = i"
    by simp
  from run_round_holds(2)[OF rr hy[OF h]] have "holds m (incBound_before y i)"
    by (simp add: ly)
  from incBound_before_last_active(1,3)[OF this]
  show "faultyPath m i = int NOP_TRANSITION \<Longrightarrow>
           lastlyActiveFaultyPath m i = lastlyActiveFaultyPath m (i - 1)"
    and "normalPath m i = int NOP_TRANSITION \<Longrightarrow>
           lastlyActiveNormalPath m i = lastlyActiveNormalPath m (i - 1)"
    by simp_all
qed

text \<open>
  Claim C4, as the code has it. The transition setup_transitions appends (event NO_OBS,
  guard \<^verbatim>\<open>c<i>=0\<close> for every clock) is at the last index of the transition list, and
  both runs are pinned to it at step 0. The index the encoder tests in its stutter rules
  is NOP_TRANSITION = 0, the self-loop the constructor of Automaton puts first, which is
  a different index: a step at index 0 forces the next delay to 0, leaves the length
  counter unchanged and propagates the last active transition.
\<close>

theorem stutter_sentinel_is_index_zero:
  assumes "query A BOUND' DELTA' k = Inr z" and "holds m (s z)"
    and "transitionList A \<noteq> []" and "1 \<le> i" and "i \<le> k"
  shows "(\<exists>t. transitionList (automaton z) = transitionList A @ [t] \<and> event t = NO_OBS
             \<and> guard t = map (\<lambda>c. ''c'' @ str_nat (c + 1) @ ''=0'') [0..<clockNum A])
       \<and> faultyPath m 0 = int (getNbTransition (automaton z)) - 1
       \<and> normalPath m 0 = int (getNbTransition (automaton z)) - 1
       \<and> int NOP_TRANSITION < int (getNbTransition (automaton z)) - 1
       \<and> (faultyPath m i = int NOP_TRANSITION \<longrightarrow>
            delayClockFaultyPath m (i + 1) = 0
            \<and> lengthFaultyPath m i = lengthFaultyPath m (i - 1)
            \<and> lastlyActiveFaultyPath m i = lastlyActiveFaultyPath m (i - 1))
       \<and> (normalPath m i = int NOP_TRANSITION \<longrightarrow>
            delayClockNormalPath m (i + 1) = 0
            \<and> lengthNormalPath m i = lengthNormalPath m (i - 1)
            \<and> lastlyActiveNormalPath m i = lastlyActiveNormalPath m (i - 1))"
proof -
  from assms(1,2) obtain t where t: "transitionList (automaton z) = transitionList A @ [t]"
    "event t = 2"
    "guard t = map (\<lambda>i. ''c'' @ str_nat (i + 1) @ ''=0'') [0..<clockNum A]"
    and pin: "faultyPath m 0 = int (getNbTransition (automaton z)) - 1"
    "normalPath m 0 = int (getNbTransition (automaton z)) - 1"
    by (rule query_start)
  from t(1) assms(3) have nb: "int NOP_TRANSITION < int (getNbTransition (automaton z)) - 1"
    by (cases "transitionList A") (simp_all add: getNbTransition_def NOP_TRANSITION_def)
  from query_step(1)[OF assms(1,2,4,5)]
  have st: "holds m (step_constraints z i (i - 1) i)" .
  have f: "faultyPath m i = int NOP_TRANSITION \<longrightarrow>
            delayClockFaultyPath m (i + 1) = 0
            \<and> lengthFaultyPath m i = lengthFaultyPath m (i - 1)
            \<and> lastlyActiveFaultyPath m i = lastlyActiveFaultyPath m (i - 1)"
    using step_constraints_nop_delay(1)[OF st] step_constraints_length(1)[OF st assms(4)]
      query_step_nop(1)[OF assms(1,2,4,5)]
    by (simp add: NOP_TRANSITION_def)
  have n: "normalPath m i = int NOP_TRANSITION \<longrightarrow>
            delayClockNormalPath m (i + 1) = 0
            \<and> lengthNormalPath m i = lengthNormalPath m (i - 1)
            \<and> lastlyActiveNormalPath m i = lastlyActiveNormalPath m (i - 1)"
    using step_constraints_nop_delay(2)[OF st] step_constraints_length(2)[OF st assms(4)]
      query_step_nop(2)[OF assms(1,2,4,5)]
    by (simp add: NOP_TRANSITION_def)
  from t have "\<exists>t. transitionList (automaton z) = transitionList A @ [t] \<and> event t = NO_OBS
             \<and> guard t = map (\<lambda>c. ''c'' @ str_nat (c + 1) @ ''=0'') [0..<clockNum A]"
    by (auto simp: NO_OBS_def)
  with pin nb f n show ?thesis by blast
qed

lemma example_delayed_answered:
  "\<exists>A z. example_automaton = Inr A \<and> query A 3 0 1 = Inr z
     \<and> answers example_model_delayed z
     \<and> faultyPath example_model_delayed 0 = int (getNbTransition (automaton z)) - 1
     \<and> delayClockFaultyPath example_model_delayed 1 = 5
     \<and> getNbTransition (automaton z) - 1 = 2
     \<and> transitionList A \<noteq> []"
proof -
  have "case example_automaton of
          Inl e \<Rightarrow> False
        | Inr A \<Rightarrow> (case query A 3 0 1 of Inl e \<Rightarrow> False
                     | Inr z \<Rightarrow> answers example_model_delayed z
                         \<and> faultyPath example_model_delayed 0 = int (getNbTransition (automaton z)) - 1
                         \<and> delayClockFaultyPath example_model_delayed 1 = 5
                         \<and> getNbTransition (automaton z) - 1 = 2
                         \<and> transitionList A \<noteq> [])"
    by code_simp
  from sum_case_Inr[OF this] obtain A where A: "example_automaton = Inr A"
    and Q: "case query A 3 0 1 of Inl e \<Rightarrow> False
                     | Inr z \<Rightarrow> answers example_model_delayed z
                         \<and> faultyPath example_model_delayed 0 = int (getNbTransition (automaton z)) - 1
                         \<and> delayClockFaultyPath example_model_delayed 1 = 5
                         \<and> getNbTransition (automaton z) - 1 = 2
                         \<and> transitionList A \<noteq> []"
    by blast
  from sum_case_Inr[OF Q] A show ?thesis by blast
qed

text \<open>
  Counterexample to C4 as stated: on the small input the appended transition is at the
  last index 2, the faulty run takes it at step 0, and a model of the query lets five
  time units pass next. The rule that forces the delay to 0 after a stutter step does not
  apply to the last index; the sentinel is index 0.
\<close>

theorem stutter_sentinel_counterexample:
  "\<exists>A z. example_automaton = Inr A \<and> query A 3 0 1 = Inr z
     \<and> answers example_model_delayed z
     \<and> faultyPath example_model_delayed 0 = int (getNbTransition (automaton z)) - 1
     \<and> delayClockFaultyPath example_model_delayed 1 = 5
     \<and> getNbTransition (automaton z) - 1 = 2
     \<and> NOP_TRANSITION = 0"
  using example_delayed_answered by (auto simp: NOP_TRANSITION_def)

theorem stutter_sentinel_is_index_zero_witness:
  "\<exists>A z. example_automaton = Inr A \<and> query A 3 0 1 = Inr z
     \<and> holds example_model_delayed (s z) \<and> transitionList A \<noteq> []
     \<and> faultyPath example_model_delayed 0 = int (getNbTransition (automaton z)) - 1
     \<and> int NOP_TRANSITION < int (getNbTransition (automaton z)) - 1"
proof -
  from example_delayed_answered obtain A z where ex: "example_automaton = Inr A"
    and q: "query A 3 0 1 = Inr z" and a: "answers example_model_delayed z"
    and ne: "transitionList A \<noteq> []"
    by blast
  from a have h: "holds example_model_delayed (s z)" by (simp add: answers_def)
  have le: "(1::nat) \<le> 1" by simp
  from stutter_sentinel_is_index_zero[OF q h ne le le] ex q h ne show ?thesis
    by blast
qed




subsection \<open>Event ids\<close>

lemma fold_assign_absent:
  "key \<notin> snd ` set xs \<Longrightarrow> fold (\<lambda>(i, k) d. d(k \<mapsto> g i)) xs d0 key = d0 key"
  by (induction xs arbitrary: d0) (auto simp: case_prod_beta)

lemma fold_assign_present:
  "distinct (map snd xs) \<Longrightarrow> (i, key) \<in> set xs \<Longrightarrow>
   fold (\<lambda>(i, k) d. d(k \<mapsto> g i)) xs d0 key = Some (g i)"
proof (induction xs arbitrary: d0)
  case Nil
  then show ?case by simp
next
  case (Cons x xs)
  show ?case
  proof (cases "x = (i, key)")
    case True
    with Cons.prems(1) have "key \<notin> snd ` set xs" by force
    then have "fold (\<lambda>(i, k) d. d(k \<mapsto> g i)) xs (d0(key \<mapsto> g i)) key = (d0(key \<mapsto> g i)) key"
      by (rule fold_assign_absent)
    then show ?thesis by (simp add: True del: fun_upd_apply) simp
  next
    case False
    with Cons.prems have "distinct (map snd xs)" "(i, key) \<in> set xs" by simp_all
    then have "fold (\<lambda>(i, k) d. d(k \<mapsto> g i)) xs ((\<lambda>(i, k) d. d(k \<mapsto> g i)) x d0) key = Some (g i)"
      by (rule Cons.IH)
    then show ?thesis by (simp del: fun_upd_apply)
  qed
qed

lemma enumerate_member: "i < length xs \<Longrightarrow> (i, xs ! i) \<in> set (enumerate 0 xs)"
  by (simp add: in_set_enumerate_eq)

lemma snd_set_enumerate: "snd ` set (enumerate n xs) = set xs"
proof -
  have "set (map snd (enumerate n xs)) = set xs" by (simp only: map_snd_enumerate)
  then show ?thesis by (simp only: set_map)
qed

lemma enumerate_lookup:
  assumes "distinct xs" "i < length xs"
  shows "fold (\<lambda>(i, k) d. d(k \<mapsto> g i)) (enumerate 0 xs) d0 (xs ! i) = Some (g i)"
  by (rule fold_assign_present) (simp_all add: assms enumerate_member)

lemma enumerate_absent:
  assumes "key \<notin> set xs"
  shows "fold (\<lambda>(i, k) d. d(k \<mapsto> g i)) (enumerate 0 xs) d0 key = d0 key"
  by (rule fold_assign_absent) (simp add: assms snd_set_enumerate)

lemma fold_const_absent:
  "key \<notin> set xs \<Longrightarrow> fold (\<lambda>k d. d(k \<mapsto> v)) xs d0 key = d0 key"
  by (induction xs arbitrary: d0) auto

lemma fold_const_present:
  "key \<in> set xs \<Longrightarrow> fold (\<lambda>k d. d(k \<mapsto> v)) xs d0 key = Some v"
proof (induction xs arbitrary: d0)
  case Nil
  then show ?case by simp
next
  case (Cons x xs)
  show ?case
  proof (cases "key \<in> set xs")
    case True
    then have "fold (\<lambda>k d. d(k \<mapsto> v)) xs (d0(x \<mapsto> v)) key = Some v"
      by (rule Cons.IH)
    then show ?thesis by (simp del: fun_upd_apply)
  next
    case False
    with Cons.prems have x: "x = key" by simp
    from False have "fold (\<lambda>k d. d(k \<mapsto> v)) xs (d0(key \<mapsto> v)) key = (d0(key \<mapsto> v)) key"
      by (rule fold_const_absent)
    then show ?thesis by (simp add: x del: fun_upd_apply) simp
  qed
qed

lemma generate_automaton_event_dict_ids:
  assumes "distinct (''f'' # unobservable @ observable)"
  shows "generate_automaton_event_dict observable unobservable ''f'' = Some 1"
    and "i < length unobservable \<Longrightarrow>
           generate_automaton_event_dict observable unobservable (unobservable ! i)
             = Some (int i + 2)"
    and "j < length observable \<Longrightarrow>
           generate_automaton_event_dict observable unobservable (observable ! j)
             = Some (int j + 2 + int (length unobservable))"
proof -
  let ?u = "\<lambda>i. int i + 2"
  let ?o = "\<lambda>i. int i + 2 + int (length unobservable)"
  let ?d1 = "fold (\<lambda>(i, k) d. d(k \<mapsto> ?u i)) (enumerate 0 unobservable) (Map.empty(''f'' \<mapsto> 1))"
  have def: "generate_automaton_event_dict observable unobservable
               = fold (\<lambda>(i, k) d. d(k \<mapsto> ?o i)) (enumerate 0 observable) ?d1"
    by (simp add: generate_automaton_event_dict_def)
  from assms have d: "distinct unobservable" "distinct observable"
    and f: "''f'' \<notin> set unobservable" "''f'' \<notin> set observable"
    and dis: "set unobservable \<inter> set observable = {}"
    by auto
  have "generate_automaton_event_dict observable unobservable ''f'' = ?d1 ''f''"
    unfolding def by (rule enumerate_absent[OF f(2)])
  also have "\<dots> = (Map.empty(''f'' \<mapsto> 1)) ''f''"
    by (rule enumerate_absent[OF f(1)])
  finally show "generate_automaton_event_dict observable unobservable ''f'' = Some 1"
    by simp
  show "generate_automaton_event_dict observable unobservable (unobservable ! i)
             = Some (int i + 2)" if i: "i < length unobservable"
  proof -
    from i dis have n: "unobservable ! i \<notin> set observable" by (auto simp: disjoint_iff)
    have "generate_automaton_event_dict observable unobservable (unobservable ! i)
            = ?d1 (unobservable ! i)"
      unfolding def by (rule enumerate_absent[OF n])
    also have "\<dots> = Some (?u i)"
      by (rule enumerate_lookup[OF d(1) i])
    finally show ?thesis .
  qed
  show "generate_automaton_event_dict observable unobservable (observable ! j)
             = Some (int j + 2 + int (length unobservable))" if j: "j < length observable"
    unfolding def by (rule enumerate_lookup[OF d(2) j])
qed

lemma parsert_event_dict_ids:
  assumes "distinct observable" "set unobservable \<inter> set observable = {}"
  shows "key \<in> set unobservable \<Longrightarrow> parsert_event_dict observable unobservable key = Some 2"
    and "j < length observable \<Longrightarrow>
           parsert_event_dict observable unobservable (observable ! j) = Some (int j + 3)"
proof -
  let ?o = "\<lambda>i. int i + 3"
  let ?d1 = "fold (\<lambda>(i, k) d. d(k \<mapsto> ?o i)) (enumerate 0 observable) Map.empty"
  have def: "parsert_event_dict observable unobservable
               = fold (\<lambda>k d. d(k \<mapsto> 2)) unobservable ?d1"
    by (simp add: parsert_event_dict_def)
  show "parsert_event_dict observable unobservable key = Some 2" if "key \<in> set unobservable"
    unfolding def by (rule fold_const_present[OF that])
  show "parsert_event_dict observable unobservable (observable ! j) = Some (int j + 3)"
    if j: "j < length observable"
  proof -
    from j assms(2) have n: "observable ! j \<notin> set unobservable" by (auto simp: disjoint_iff)
    have "parsert_event_dict observable unobservable (observable ! j) = ?d1 (observable ! j)"
      unfolding def by (rule fold_const_absent[OF n])
    also have "\<dots> = Some (?o j)"
      by (rule enumerate_lookup[OF assms(1) j])
    finally show ?thesis .
  qed
qed

lemma parse_header_with_Inr:
  assumes "parse_header_with mk header_line = Inr (i, b, d, ed, cl)"
  obtains observable unobservable where
    "braced_names (split header_line '' '') 6 = Inr observable"
    "braced_names (split header_line '' '') 7 = Inr unobservable"
    "ed = mk observable unobservable"
  using assms by (auto simp: parse_header_with_def Let_def bind_err_Inr)




text \<open>
  Claim C6, as the code has it. For a header whose two event lists name at least one
  event each, the names non-empty, pairwise distinct and different from f, with \<open>u\<close>
  unobservable names: the parser of generate_automaton.py maps f to 1, the unobservable
  name at position \<open>i\<close> (from 0) to \<open>i + 2\<close> and the observable name at position \<open>j\<close>
  (from 0) to \<open>j + 2 + u\<close>; the parser of parsert.py, the one the encoder imports, maps
  every unobservable name to 2 and the observable name at position \<open>j\<close> to \<open>j + 3\<close>,
  and reads f as 1 when it parses a transition. With no empty name among them, the
  entries the parser splits out of a brace pair are the event names of the header.
\<close>

theorem header_event_ids:
  assumes "generate_automaton_parse_header header_line = Inr (i1, b1, d1, ga_dict, c1)"
    and "parsert_parse_header header_line = Inr (i2, b2, d2, pt_dict, c2)"
    and "braced_names (split header_line '' '') 6 = Inr observable"
    and "braced_names (split header_line '' '') 7 = Inr unobservable"
    and "distinct (''f'' # unobservable @ observable)"
    and "[] \<notin> set (unobservable @ observable)"
  shows "ga_dict ''f'' = Some 1
       \<and> (\<forall>i<length unobservable. ga_dict (unobservable ! i) = Some (int i + 2))
       \<and> (\<forall>j<length observable.
             ga_dict (observable ! j) = Some (int j + 2 + int (length unobservable)))
       \<and> parsert_event_id pt_dict ''f'' = 1
       \<and> (\<forall>key\<in>set unobservable. pt_dict key = Some 2)
       \<and> (\<forall>j<length observable. pt_dict (observable ! j) = Some (int j + 3))"
proof -
  from assms(1) obtain obs unobs where
    "braced_names (split header_line '' '') 6 = Inr obs"
    "braced_names (split header_line '' '') 7 = Inr unobs"
    "ga_dict = generate_automaton_event_dict obs unobs"
    unfolding generate_automaton_parse_header_def by (rule parse_header_with_Inr)
  with assms(3,4) have ga: "ga_dict = generate_automaton_event_dict observable unobservable"
    by simp
  from assms(2) obtain obs unobs where
    "braced_names (split header_line '' '') 6 = Inr obs"
    "braced_names (split header_line '' '') 7 = Inr unobs"
    "pt_dict = parsert_event_dict obs unobs"
    unfolding parsert_parse_header_def by (rule parse_header_with_Inr)
  with assms(3,4) have pt: "pt_dict = parsert_event_dict observable unobservable"
    by simp
  from assms(5) have d: "distinct observable" "set unobservable \<inter> set observable = {}"
    by auto
  show ?thesis
    unfolding ga pt
    using generate_automaton_event_dict_ids[OF assms(5)] parsert_event_dict_ids[OF d]
    by (simp add: parsert_event_id_def)
qed

lemma example_header_parsed:
  "\<exists>i1 b1 d1 ga_dict c1 i2 b2 d2 pt_dict c2.
     generate_automaton_parse_header example_header = Inr (i1, b1, d1, ga_dict, c1)
     \<and> parsert_parse_header example_header = Inr (i2, b2, d2, pt_dict, c2)
     \<and> pt_dict ''v'' = Some 2 \<and> pt_dict ''a'' = Some 3"
proof -
  have "case generate_automaton_parse_header example_header of
          Inl e \<Rightarrow> False
        | Inr r1 \<Rightarrow>
            (case parsert_parse_header example_header of
               Inl e \<Rightarrow> False
             | Inr r2 \<Rightarrow> fst (snd (snd (snd r2))) ''v'' = Some 2
                         \<and> fst (snd (snd (snd r2))) ''a'' = Some 3)"
    by code_simp
  from sum_case_Inr[OF this] obtain r1 where
    r1: "generate_automaton_parse_header example_header = Inr r1"
    and "case parsert_parse_header example_header of
               Inl e \<Rightarrow> False
             | Inr r2 \<Rightarrow> fst (snd (snd (snd r2))) ''v'' = Some 2
                         \<and> fst (snd (snd (snd r2))) ''a'' = Some 3"
    by blast
  from sum_case_Inr[OF this(2)] obtain r2 where
    r2: "parsert_parse_header example_header = Inr r2"
    and v: "fst (snd (snd (snd r2))) ''v'' = Some 2" "fst (snd (snd (snd r2))) ''a'' = Some 3"
    by blast
  obtain i1 b1 d1 ga_dict c1 where t1: "r1 = (i1, b1, d1, ga_dict, c1)"
    by (cases r1)
  obtain i2 b2 d2 pt_dict c2 where t2: "r2 = (i2, b2, d2, pt_dict, c2)"
    by (cases r2)
  from r1 r2 v show ?thesis unfolding t1 t2 by simp
qed

lemma example_header_names:
  "braced_names (split example_header '' '') 6 = Inr [''a'', ''b'']"
  "braced_names (split example_header '' '') 7 = Inr [''u'', ''v'']"
  by code_simp+

text \<open>
  Counterexample to C6 as stated: on a header with the unobservable names u, v and the
  observable names a, b, the parser the encoder uses gives the second unobservable name
  the id 2 (the claim: 3) and the first observable name the id 3 (the claim: 2 + 1 + 1).
\<close>

theorem header_event_ids_counterexample:
  "\<exists>i2 b2 d2 pt_dict c2.
     parsert_parse_header example_header = Inr (i2, b2, d2, pt_dict, c2)
     \<and> braced_names (split example_header '' '') 6 = Inr [''a'', ''b'']
     \<and> braced_names (split example_header '' '') 7 = Inr [''u'', ''v'']
     \<and> pt_dict ''v'' = Some 2 \<and> pt_dict ''v'' \<noteq> Some (2 + 1)
     \<and> pt_dict ''a'' = Some 3 \<and> pt_dict ''a'' \<noteq> Some (2 + 1 + 1)"
proof -
  from example_header_parsed obtain i2 b2 d2 pt_dict c2 where
    "parsert_parse_header example_header = Inr (i2, b2, d2, pt_dict, c2)"
    "pt_dict ''v'' = Some 2" "pt_dict ''a'' = Some 3"
    by blast
  with example_header_names show ?thesis by simp
qed

theorem header_event_ids_witness:
  "\<exists>i1 b1 d1 ga_dict c1 i2 b2 d2 pt_dict c2.
     generate_automaton_parse_header example_header = Inr (i1, b1, d1, ga_dict, c1)
     \<and> parsert_parse_header example_header = Inr (i2, b2, d2, pt_dict, c2)
     \<and> braced_names (split example_header '' '') 6 = Inr [''a'', ''b'']
     \<and> braced_names (split example_header '' '') 7 = Inr [''u'', ''v'']
     \<and> distinct [''f'', ''u'', ''v'', ''a'', ''b'']
     \<and> [] \<notin> set [''u'', ''v'', ''a'', ''b'']
     \<and> ga_dict ''f'' = Some 1 \<and> ga_dict ''u'' = Some 2 \<and> ga_dict ''v'' = Some 3
     \<and> ga_dict ''a'' = Some 4 \<and> ga_dict ''b'' = Some 5
     \<and> pt_dict ''u'' = Some 2 \<and> pt_dict ''v'' = Some 2
     \<and> pt_dict ''a'' = Some 3 \<and> pt_dict ''b'' = Some 4"
proof -
  from example_header_parsed obtain i1 b1 d1 ga_dict c1 i2 b2 d2 pt_dict c2 where
    ga: "generate_automaton_parse_header example_header = Inr (i1, b1, d1, ga_dict, c1)"
    and pt: "parsert_parse_header example_header = Inr (i2, b2, d2, pt_dict, c2)"
    by blast
  have d: "distinct (''f'' # [''u'', ''v''] @ [''a'', ''b''])" by simp
  have ne: "[] \<notin> set ([''u'', ''v''] @ [''a'', ''b''])" by simp
  note th = header_event_ids[OF ga pt example_header_names d ne]
  from th have g0: "ga_dict ''f'' = Some 1" by blast
  from th have gu: "\<forall>i<length [''u'', ''v'']. ga_dict ([''u'', ''v''] ! i) = Some (int i + 2)"
    by blast
  from th have go: "\<forall>j<length [''a'', ''b''].
      ga_dict ([''a'', ''b''] ! j) = Some (int j + 2 + int (length [''u'', ''v'']))"
    by blast
  from th have pu: "\<forall>key\<in>set [''u'', ''v'']. pt_dict key = Some 2" by blast
  from th have po: "\<forall>j<length [''a'', ''b'']. pt_dict ([''a'', ''b''] ! j) = Some (int j + 3)"
    by blast
  from gu[rule_format, of 0] gu[rule_format, of 1]
  have g1: "ga_dict ''u'' = Some 2" "ga_dict ''v'' = Some 3" by simp_all
  from go[rule_format, of 0] go[rule_format, of 1]
  have g2: "ga_dict ''a'' = Some 4" "ga_dict ''b'' = Some 5" by simp_all
  from pu have p1: "pt_dict ''u'' = Some 2" "pt_dict ''v'' = Some 2" by simp_all
  from po[rule_format, of 0] po[rule_format, of 1]
  have p2: "pt_dict ''a'' = Some 3" "pt_dict ''b'' = Some 4" by simp_all
  from ga pt example_header_names g0 g1 g2 p1 p2 show ?thesis
    by simp
qed

text \<open>
  An empty pair of braces is not an empty list to the parsers: \<^verbatim>\<open>"".split(",")\<close> is
  \<^verbatim>\<open>[""]\<close>, so the header with \<^verbatim>\<open>{a} {}\<close> is read with one unobservable entry, the
  empty name. It takes the id 2, and generate_automaton.py gives a the id 3.
\<close>

lemma header_empty_braces:
  "braced_names (split example_header_empty '' '') 6 = Inr [''a'']"
  "braced_names (split example_header_empty '' '') 7 = Inr [[]]"
  "case generate_automaton_parse_header example_header_empty of
     Inl e \<Rightarrow> False
   | Inr r \<Rightarrow> fst (snd (snd (snd r))) ''a'' = Some 3 \<and> fst (snd (snd (snd r))) [] = Some 2"
  "case parsert_parse_header example_header_empty of
     Inl e \<Rightarrow> False
   | Inr r \<Rightarrow> fst (snd (snd (snd r))) ''a'' = Some 3 \<and> fst (snd (snd (snd r))) [] = Some 2"
  by code_simp+




subsection \<open>Where the encoder raises\<close>

text \<open>Whether the translation of guards and invariants raises does not depend on the step.\<close>

lemma isl_map_err: "isl (map_err f xs) = (\<exists>x\<in>set xs. isl (f x))"
  by (induction xs) (auto split: sum.splits)

lemma trans_atom_isl_iff:
  "isl (trans_atom n idx p c) =
     (isl (atom_fields c) \<or>
      (\<exists>flag num clk. atom_fields c = Inr (flag, num, clk) \<and> isl (py_float num)))"
  by (cases "atom_fields c")
     (auto simp: trans_atom_def bind_err_def split: sum.splits option.splits)

lemma guard_constraint_isl_iff:
  "isl (guard_constraint n g pos p) =
     (isl (parseConstraints g) \<or>
      (\<exists>parsed. parseConstraints g = Inr parsed \<and> (\<exists>c\<in>set parsed. isl (trans_atom n pos p c))))"
proof (cases "parseConstraints g")
  case (Inl e)
  then show ?thesis by (simp add: guard_constraint_def bind_err_def)
next
  case (Inr parsed)
  have "isl (guard_constraint n g pos p) = isl (map_err (trans_atom n pos p) parsed)"
    by (cases "map_err (trans_atom n pos p) parsed")
       (simp_all add: guard_constraint_def transConstraints_def bind_err_def Inr)
  then show ?thesis by (simp add: Inr isl_map_err)
qed

lemma guard_constraint_isl:
  "isl (guard_constraint n g pos p) = isl (guard_constraint n g pos' p)"
  by (simp only: guard_constraint_isl_iff trans_atom_isl_iff)

lemma parseInv_list_isl:
  "isl (parseInv_list xs c pos p) = isl (parseInv_list xs c pos' p)"
  by (induction xs) (simp_all split: sum.splits)

lemma parseInv_isl: "isl (parseInv v c pos p) = isl (parseInv v c pos' p)"
  by (cases v) (simp_all add: parseInv_def parseInv_list_isl[of _ c pos p pos'])

lemma clock_constraints_isl_iff:
  "isl (clock_constraints z pos j i) =
     (isl (parseInv (invariant (source (transitionList (automaton z) ! j))) i pos ''f'') \<or>
      isl (parseInv (invariant (target (transitionList (automaton z) ! j))) i (pos + 1) ''f'') \<or>
      isl (parseInv (invariant (source (transitionList (automaton z) ! j))) i pos ''n'') \<or>
      isl (parseInv (invariant (target (transitionList (automaton z) ! j))) i (pos + 1) ''n''))"
  by (auto simp: clock_constraints_def Let_def bind_err_def split: sum.splits)

lemma clock_constraints_isl:
  "isl (clock_constraints z pos j i) = isl (clock_constraints z pos' j i)"
  unfolding clock_constraints_isl_iff
  by (simp only: parseInv_isl[of _ i pos _ pos'] parseInv_isl[of _ i "pos + 1" _ "pos' + 1"])

lemma transition_constraints_isl_iff:
  "isl (transition_constraints z pos j) =
     (isl (guard_constraint (clockNum (automaton z)) (clockTransition z ! j) pos ''f'') \<or>
      isl (guard_constraint (clockNum (automaton z)) (clockTransition z ! j) pos ''n'') \<or>
      isl (map_err (clock_constraints z pos j) [0..<clockNum (automaton z)]))"
  by (auto simp: transition_constraints_def Let_def bind_err_def split: sum.splits)

lemma transition_constraints_isl:
  "isl (transition_constraints z pos j) = isl (transition_constraints z pos' j)"
  unfolding transition_constraints_isl_iff isl_map_err
  by (simp only: guard_constraint_isl[of _ _ pos _ pos'] clock_constraints_isl[of z pos j _ pos'])

lemma transitions_isl:
  "isl (map_err (transition_constraints z pos) xs) = isl (map_err (transition_constraints z pos') xs)"
  unfolding isl_map_err by (simp only: transition_constraints_isl[of z pos _ pos'])


lemma clock_constraints_idxAssum [simp]:
  "clock_constraints (z\<lparr>idxAssum := n\<rparr>) = clock_constraints z"
  by (simp add: clock_constraints_def fun_eq_iff)

lemma transition_constraints_idxAssum [simp]:
  "transition_constraints (z\<lparr>idxAssum := n\<rparr>) = transition_constraints z"
  by (simp add: transition_constraints_def fun_eq_iff)

text \<open>
  Past the last entry of the list of observability literals the encoder raises
  IndexError, provided the loop over the transitions raises nothing.
\<close>

lemma addConstraintOnIdTransition_IndexError:
  assumes "\<not> isl (map_err (transition_constraints z pos) [0..<getNbTransition (automaton z)])"
    and "lenObservable z \<le> pos"
  shows "addConstraintOnIdTransition z pos = Inl IndexError"
proof -
  from assms(1) obtain css where
    css: "map_err (transition_constraints z pos) [0..<getNbTransition (automaton z)] = Inr css"
    by (cases "map_err (transition_constraints z pos) [0..<getNbTransition (automaton z)]") simp_all
  from assms(2) have obs: "py_index (lenObservable z) (int pos) = Inl IndexError"
    by (simp add: py_index_def)
  show ?thesis
  proof (cases "py_index (lenPath z) (int pos - 1)")
    case (Inl e)
    then have "e = IndexError" by (simp add: py_index_def split: if_splits)
    with Inl css show ?thesis by (simp add: addConstraintOnIdTransition_def bind_err_def)
  next
    case (Inr prev)
    with css obs show ?thesis by (simp add: addConstraintOnIdTransition_def bind_err_def)
  qed
qed

lemma addConstraintOnIdTransition_total:
  assumes "\<not> isl (map_err (transition_constraints z pos) [0..<getNbTransition (automaton z)])"
    and "pos < lenObservable z" and "0 < pos" and "pos < lenPath z"
  shows "\<exists>z'. addConstraintOnIdTransition z pos = Inr z'"
proof -
  from assms(1) obtain css where
    css: "map_err (transition_constraints z pos) [0..<getNbTransition (automaton z)] = Inr css"
    by (cases "map_err (transition_constraints z pos) [0..<getNbTransition (automaton z)]") simp_all
  from assms(2) have obs: "py_index (lenObservable z) (int pos) = Inr pos"
    by (simp add: py_index_def)
  from assms(3,4) have prev: "py_index (lenPath z) (int pos - 1) = Inr (pos - 1)"
    by (auto simp: py_index_def nat_diff_distrib)
  from css obs prev show ?thesis by (simp add: addConstraintOnIdTransition_def bind_err_def)
qed

lemma run_round_IndexError:
  assumes "\<And>pos. \<not> isl (map_err (transition_constraints z pos) [0..<getNbTransition (automaton z)])"
    and "0 < lenPath z" and "lenObservable z \<le> lenPath z"
  shows "run_round z = Inl IndexError"
proof -
  let ?z2 = "z\<lparr>lenPath := lenPath z + 1, s := s z @ incBound_before z (lenPath z)\<rparr>"
  have "addConstraintOnIdTransition ?z2 (lenPath z) = Inl IndexError"
    by (rule addConstraintOnIdTransition_IndexError) (simp_all add: assms)
  with assms(2) have "incBound z = Inl IndexError"
    by (simp add: incBound_def Let_def incVariableList_def bind_err_def)
  then show ?thesis by (simp add: run_round_def bind_err_def)
qed

lemma run_round_total:
  assumes "\<And>pos. \<not> isl (map_err (transition_constraints z pos) [0..<getNbTransition (automaton z)])"
    and "0 < lenPath z" and "lenPath z < lenObservable z"
  shows "\<exists>z'. run_round z = Inr z'"
proof -
  let ?z2 = "z\<lparr>lenPath := lenPath z + 1, s := s z @ incBound_before z (lenPath z)\<rparr>"
  have "\<exists>z3. addConstraintOnIdTransition ?z2 (lenPath z) = Inr z3"
    by (rule addConstraintOnIdTransition_total) (simp_all add: assms)
  then obtain z3 where "addConstraintOnIdTransition ?z2 (lenPath z) = Inr z3" ..
  with assms(2) have "\<exists>z1. incBound z = Inr z1"
    by (simp add: incBound_def Let_def incVariableList_def bind_err_def)
  then obtain z1 where "incBound z = Inr z1" ..
  then show ?thesis by (simp add: run_round_def bind_err_def Let_def)
qed




lemma Z3Model_init_loop_ok:
  assumes "Z3Model_init A BOUND' DELTA' = Inr z"
  shows "\<not> isl (map_err (transition_constraints z pos) [0..<getNbTransition (automaton z)])"
proof -
  from assms obtain zs css t where
    css: "map_err (transition_constraints zs 0) [0..<getNbTransition (automaton zs)] = Inr css"
    and z: "z = zs\<lparr>s := s zs @ initial_constraints zs @ concat css @ step_constraints zs 0 0 0,
            lenObservable := getNbTransition (automaton zs)\<rparr>"
    by (rule Z3Model_init_Inr)
  from css have "\<not> isl (map_err (transition_constraints zs 0) [0..<getNbTransition (automaton zs)])"
    by simp
  then have "\<not> isl (map_err (transition_constraints zs pos) [0..<getNbTransition (automaton zs)])"
    by (simp add: transitions_isl[of zs pos _ 0])
  then show ?thesis by (simp add: z)
qed

lemma run_prelude_transition_constraints [simp]:
  "transition_constraints (run_prelude z) = transition_constraints z"
  by (simp add: run_prelude_def)

lemma run_round_transition_constraints:
  assumes "run_round z = Inr z'"
  shows "transition_constraints z' = transition_constraints z"
  using assms by (rule run_round_Inr) simp

lemma run_round_BOUND_frame:
  assumes "run_round z = Inr z'"
  shows "BOUND z' = BOUND z"
  using assms by (rule run_round_Inr) simp

text \<open>
  When BOUND is at least the number of observability literals, the loop of run cannot
  come to its end: it stops at a sat answer in a round below that number, or the encoder
  raises IndexError in the round that reaches it.
\<close>

lemma run_loop_beyond:
  assumes "\<And>pos. \<not> isl (map_err (transition_constraints z pos) [0..<getNbTransition (automaton z)])"
    and "0 < lenPath z" and "cpt = int (lenPath z)" and "lenPath z \<le> lenObservable z"
    and "int (lenObservable z) \<le> BOUND z"
  shows "snd (run_loop check z cpt) \<noteq> ReportedUnsat
       \<and> (\<forall>e. snd (run_loop check z cpt) = Raised e \<longrightarrow> e = IndexError)
       \<and> (\<forall>m c. snd (run_loop check z cpt) = ReportedSat m c \<longrightarrow> c \<le> int (lenObservable z))"
  using assms
proof (induction check z cpt rule: run_loop.induct)
  case (1 check z cpt)
  note unf = run_loop.simps[of check z cpt]
  from "1.prems"(3,4,5) have le: "cpt \<le> BOUND z" by simp
  show ?case
  proof (cases "lenPath z < lenObservable z")
    case False
    with "1.prems"(4) have "lenObservable z \<le> lenPath z" by simp
    from run_round_IndexError[OF "1.prems"(1,2) this] le
    have "run_loop check z cpt = ([], Raised IndexError)"
      by (simp add: unf)
    then show ?thesis by simp
  next
    case True
    from run_round_total[OF "1.prems"(1,2) True] obtain b where b: "run_round z = Inr b" ..
    from run_round_frame[OF b] run_round_BOUND_frame[OF b] run_round_transition_constraints[OF b]
    have fr: "lenPath b = lenPath z + 1" "automaton b = automaton z"
      "lenObservable b = lenObservable z" "BOUND b = BOUND z"
      "transition_constraints b = transition_constraints z"
      by simp_all
    have pre: "\<And>pos. \<not> isl (map_err (transition_constraints b pos) [0..<getNbTransition (automaton b)])"
      "0 < lenPath b" "cpt + 1 = int (lenPath b)" "lenPath b \<le> lenObservable b"
      "int (lenObservable b) \<le> BOUND b"
      using "1.prems" True by (simp_all add: fr)
    show ?thesis
    proof (cases "check (s b) (listAssum b)")
      case (sat m)
      with le b have "run_loop check z cpt = ([], ReportedSat m (cpt + 1))"
        by (simp add: unf)
      with "1.prems"(3) True show ?thesis by simp
    next
      case unsat
      from le b unsat have "snd (run_loop check z cpt) = snd (run_loop check b (cpt + 1))"
        by (simp add: unf split: prod.splits)
      with "1.IH"(1)[OF le b unsat pre] show ?thesis
        by (simp add: fr)
    next
      case unknown
      from le b unknown have "snd (run_loop check z cpt) = snd (run_loop check b (cpt + 1))"
        by (simp add: unf split: prod.splits)
      with "1.IH"(2)[OF le b unknown pre] show ?thesis
        by (simp add: fr)
    qed
  qed
qed

lemma run_beyond:
  assumes "Z3Model_init A BOUND' DELTA' = Inr z"
    and "int (getNbTransition (automaton z)) \<le> BOUND'"
  shows "snd (run check z) \<noteq> ReportedUnsat"
    and "snd (run check z) = Raised e \<Longrightarrow> e = IndexError"
    and "snd (run check z) = ReportedSat m c \<Longrightarrow> c \<le> int (getNbTransition (automaton z))"
proof -
  note f = Z3Model_init_fields[OF assms(1)]
  have "snd (run_loop check (run_prelude z) 1) \<noteq> ReportedUnsat
       \<and> (\<forall>e. snd (run_loop check (run_prelude z) 1) = Raised e \<longrightarrow> e = IndexError)
       \<and> (\<forall>m c. snd (run_loop check (run_prelude z) 1) = ReportedSat m c \<longrightarrow>
             c \<le> int (lenObservable (run_prelude z)))"
  proof (rule run_loop_beyond)
    show "\<not> isl (map_err (transition_constraints (run_prelude z) pos)
             [0..<getNbTransition (automaton (run_prelude z))])" for pos
      using Z3Model_init_loop_ok[OF assms(1), of pos] by simp
    show "0 < lenPath (run_prelude z)" by (simp add: f)
    show "1 = int (lenPath (run_prelude z))" by (simp add: f)
    show "lenPath (run_prelude z) \<le> lenObservable (run_prelude z)" by (simp add: f)
    show "int (lenObservable (run_prelude z)) \<le> BOUND (run_prelude z)"
      using assms(2) by (simp add: f)
  qed
  then show "snd (run check z) \<noteq> ReportedUnsat"
    and "snd (run check z) = Raised e \<Longrightarrow> e = IndexError"
    and "snd (run check z) = ReportedSat m c \<Longrightarrow> c \<le> int (getNbTransition (automaton z))"
    by (simp_all add: run_def f)
qed




lemma rounds_transition_constraints:
  assumes "rounds k z = Inr z'"
  shows "transition_constraints z' = transition_constraints z"
  using assms
proof (induction k arbitrary: z')
  case 0
  then show ?case by simp
next
  case (Suc k)
  then obtain y where y: "rounds k z = Inr y" and r: "run_round y = Inr z'"
    unfolding rounds_Suc_Inr by blast
  from Suc.IH[OF y] run_round_transition_constraints[OF r] show ?case by simp
qed

lemma run_never_sat:
  assumes "\<And>cs as m. check cs as \<noteq> sat m"
  shows "snd (run check z) \<noteq> ReportedSat m c"
proof
  assume "snd (run check z) = ReportedSat m c"
  then have "run_loop check (run_prelude z) 1 = (fst (run check z), ReportedSat m c)"
    by (cases "run_loop check (run_prelude z) 1") (simp add: run_def)
  from run_loop_sat[OF this] assms show False by blast
qed

lemma example_init:
  "\<exists>A z0. example_automaton = Inr A \<and> Z3Model_init A 3 0 = Inr z0
     \<and> getNbTransition (automaton z0) = 3"
proof -
  from example_delayed_answered obtain A z where ex: "example_automaton = Inr A"
    and q: "query A 3 0 1 = Inr z" and nb: "getNbTransition (automaton z) - 1 = 2"
    by blast
  from q obtain z0 where z0: "Z3Model_init A 3 0 = Inr z0"
    and r: "rounds 1 (run_prelude z0) = Inr z"
    by (rule query_Inr)
  from rounds_frame[OF r] have "automaton z = automaton z0" by simp
  with nb Z3Model_init_fields(6)[OF z0] have "getNbTransition (automaton z0) = 3" by simp
  with ex z0 show ?thesis by blast
qed

text \<open>
  Claim C5, with what the early return of run adds. The list of observability literals
  has one entry per transition of the preprocessed automaton, and the encoder reads it at
  the step index: in every state the driver reaches, the encoder raises IndexError at
  every step index from the transition count on, and returns only below it. So when
  BOUND is at least the transition count, run never reports UNSAT: it raises IndexError,
  unless a sat answer in an earlier round (cpt at most the transition count) makes it
  return first; with a solver that never answers sat it raises IndexError.
\<close>

theorem encoder_index_error_beyond_transitions:
  assumes "Z3Model_init A BOUND' DELTA' = Inr z0" and "rounds k (run_prelude z0) = Inr z"
  shows "(\<forall>pos \<ge> getNbTransition (automaton z). addConstraintOnIdTransition z pos = Inl IndexError)
       \<and> (\<forall>pos z'. addConstraintOnIdTransition z pos = Inr z' \<longrightarrow>
             pos < getNbTransition (automaton z))
       \<and> lenObservable z = getNbTransition (automaton z)
       \<and> (int (getNbTransition (automaton z)) \<le> BOUND' \<longrightarrow>
            snd (run check z0) \<noteq> ReportedUnsat
          \<and> (\<forall>e. snd (run check z0) = Raised e \<longrightarrow> e = IndexError)
          \<and> (\<forall>m c. snd (run check z0) = ReportedSat m c \<longrightarrow>
                c \<le> int (getNbTransition (automaton z)))
          \<and> ((\<forall>cs as m. check cs as \<noteq> sat m) \<longrightarrow> snd (run check z0) = Raised IndexError))"
proof -
  note f = Z3Model_init_fields[OF assms(1)]
  from rounds_frame[OF assms(2)] have fr: "automaton z = automaton z0"
    "lenObservable z = lenObservable z0"
    by simp_all
  from rounds_transition_constraints[OF assms(2)]
  have tc: "transition_constraints z = transition_constraints z0" by simp
  have obs: "lenObservable z = getNbTransition (automaton z)"
    by (simp add: fr f)
  have ok: "\<not> isl (map_err (transition_constraints z pos) [0..<getNbTransition (automaton z)])"
    for pos
    using Z3Model_init_loop_ok[OF assms(1), of pos] by (simp add: tc fr)
  have a: "\<forall>pos \<ge> getNbTransition (automaton z). addConstraintOnIdTransition z pos = Inl IndexError"
    using addConstraintOnIdTransition_IndexError[OF ok] by (simp add: obs)
  have b: "\<forall>pos z'. addConstraintOnIdTransition z pos = Inr z' \<longrightarrow>
             pos < getNbTransition (automaton z)"
    by (auto elim!: addConstraintOnIdTransition_Inr simp: obs)
  have c: "snd (run check z0) \<noteq> ReportedUnsat
          \<and> (\<forall>e. snd (run check z0) = Raised e \<longrightarrow> e = IndexError)
          \<and> (\<forall>m c. snd (run check z0) = ReportedSat m c \<longrightarrow>
                c \<le> int (getNbTransition (automaton z)))
          \<and> ((\<forall>cs as m. check cs as \<noteq> sat m) \<longrightarrow> snd (run check z0) = Raised IndexError)"
    if big: "int (getNbTransition (automaton z)) \<le> BOUND'"
  proof -
    from big have big0: "int (getNbTransition (automaton z0)) \<le> BOUND'" by (simp add: fr)
    note rb = run_beyond[OF assms(1) big0, of check]
    have never: "snd (run check z0) = Raised IndexError" if n: "\<forall>cs as m. check cs as \<noteq> sat m"
    proof (cases "snd (run check z0)")
      case (ReportedSat m c)
      with run_never_sat[of check z0 m c] n show ?thesis by blast
    next
      case ReportedUnsat
      with rb(1) show ?thesis by simp
    next
      case (Raised e)
      with rb(2)[of e] show ?thesis by simp
    qed
    from rb never show ?thesis by (simp add: fr)
  qed
  from a b obs c show ?thesis by blast
qed

text \<open>
  Counterexample to C5 as stated: on the small input the preprocessed automaton has 3
  transitions and BOUND is 3, and run does not crash: the first query is satisfiable and
  run returns with the model a sound solver finds.
\<close>

theorem encoder_index_error_counterexample:
  "\<exists>A z0 m. example_automaton = Inr A \<and> Z3Model_init A 3 0 = Inr z0
     \<and> getNbTransition (automaton z0) = 3 \<and> BOUND z0 = 3
     \<and> sound (proposing example_model)
     \<and> run (proposing example_model) z0 = ([], ReportedSat m 2)"
proof -
  from example_init obtain A z0 where ex: "example_automaton = Inr A"
    and z0: "Z3Model_init A 3 0 = Inr z0" and nb: "getNbTransition (automaton z0) = 3"
    by blast
  from example_main_sat obtain m where
    "example_main (proposing example_model) 3 0 = ([], ReportedSat m 2)"
    by blast
  then have r: "run (proposing example_model) z0 = ([], ReportedSat m 2)"
    by (simp add: example_main_def ex main_def z0)
  from Z3Model_init_fields(1)[OF z0] have "BOUND z0 = 3" .
  with ex z0 nb r proposing_sound[of example_model] show ?thesis by blast
qed

theorem encoder_index_error_beyond_transitions_witness:
  "\<exists>A z0. example_automaton = Inr A \<and> Z3Model_init A 3 0 = Inr z0
     \<and> rounds 0 (run_prelude z0) = Inr (run_prelude z0)
     \<and> getNbTransition (automaton (run_prelude z0)) = 3
     \<and> addConstraintOnIdTransition (run_prelude z0) 3 = Inl IndexError
     \<and> snd (run (\<lambda>cs as. unsat) z0) = Raised IndexError"
proof -
  from example_init obtain A z0 where ex: "example_automaton = Inr A"
    and z0: "Z3Model_init A 3 0 = Inr z0" and nb: "getNbTransition (automaton z0) = 3"
    by blast
  have r: "rounds 0 (run_prelude z0) = Inr (run_prelude z0)" by simp
  have nb': "getNbTransition (automaton (run_prelude z0)) = 3" by (simp add: nb)
  note th = encoder_index_error_beyond_transitions[OF z0 r, of "\<lambda>cs as. unsat"]
  from th nb' have 1: "addConstraintOnIdTransition (run_prelude z0) 3 = Inl IndexError"
    by simp
  from th nb' have 2: "snd (run (\<lambda>cs as. unsat) z0) = Raised IndexError"
    by simp
  from ex z0 r nb' 1 2 show ?thesis by blast
qed




subsection \<open>Automata without a fault transition\<close>

lemma setup_transitions_next:
  assumes "setup_transitions z = Inr z'"
  shows "length (nextTransition z') = getNbTransition (automaton z')"
    and "j < getNbTransition (automaton z') \<Longrightarrow> n \<in> set (nextTransition z' ! j) \<Longrightarrow>
           n < getNbTransition (automaton z')"
proof -
  let ?nb0 = "getNbTransition (automaton z)"
  from assms obtain A2 init rt where
    app: "appendTransition (addState (automaton z) (getMaxStateLabel (automaton z) + 1) (InvInt 1))
       (getMaxStateLabel (automaton z) + 1) (initState z) 2
       (map (\<lambda>i. ''c'' @ str_nat (i + 1) @ ''=0'') [0..<clockNum (automaton z)])
       (map int [0..<clockNum (automaton z)]) = Inr A2"
    and aut: "automaton z' = A2"
    and nx: "nextTransition z' =
              map (\<lambda>i. NOP_TRANSITION #
                     filter (\<lambda>j. same_state (target (transitionList (automaton z) ! i))
                                             (source (transitionList (automaton z) ! j)))
                       [0..<?nb0])
                [0..<?nb0]
              @ [NOP_TRANSITION #
                 filter (\<lambda>idx. same_state (source (transitionList A2 ! idx)) init)
                   [0..<getNbTransition A2]]"
    by (rule setup_transitions_Inr) simp
  from app have nb2: "getNbTransition A2 = ?nb0 + 1"
    by (rule appendTransition_Inr) (simp add: getNbTransition_def)
  show "length (nextTransition z') = getNbTransition (automaton z')"
    by (simp add: nx aut nb2)
  show "n < getNbTransition (automaton z')"
    if j: "j < getNbTransition (automaton z')" and n: "n \<in> set (nextTransition z' ! j)"
  proof (cases "j < ?nb0")
    case True
    with n have "n = NOP_TRANSITION \<or> n \<in> set [0..<?nb0]"
      by (auto simp: nx nth_append simp del: upt_Suc)
    then show ?thesis
      by (auto simp: aut nb2 NOP_TRANSITION_def)
  next
    case False
    with j have "j = ?nb0" by (simp add: aut nb2)
    with n have "n = NOP_TRANSITION \<or> n \<in> set [0..<getNbTransition A2]"
      by (auto simp: nx nth_append simp del: upt_Suc)
    then show ?thesis
      by (auto simp: aut nb2 NOP_TRANSITION_def)
  qed
qed

lemma Z3Model_init_next:
  assumes "Z3Model_init A BOUND' DELTA' = Inr z"
  shows "j < getNbTransition (automaton z) \<Longrightarrow> n \<in> set (nextTransition z ! j) \<Longrightarrow>
           n < getNbTransition (automaton z)"
proof -
  let ?z0 = "initialize_z3_variables
       \<lparr>automaton = A, BOUND = BOUND', DELTA = DELTA', initState = 0, nextTransition = [],
        idxAssum = 0, maxLabelTransition = 0, maxLabelState = 0, resetTransition = [],
        clockTransition = [], s = [], lenPath = 0, lenObservable = 0\<rparr>"
  from assms obtain zs where zs: "setup_transitions ?z0 = Inr zs"
    and add: "add_initial_constraints zs = Inr z"
    by (auto simp: Z3Model_init_def bind_err_Inr)
  from add have "addConstraintOnIdTransition
      (zs\<lparr>s := s zs @ initial_constraints zs,
          lenObservable := getNbTransition (automaton zs)\<rparr>) 0 = Inr z"
    by (simp add: add_initial_constraints_def)
  then have fr: "automaton z = automaton zs" "nextTransition z = nextTransition zs"
    by (auto elim!: addConstraintOnIdTransition_Inr)
  show "n < getNbTransition (automaton z)"
    if "j < getNbTransition (automaton z)" "n \<in> set (nextTransition z ! j)"
    using setup_transitions_next(2)[OF zs, of j n] that by (simp add: fr)
qed

lemma run_round_next:
  assumes "run_round z = Inr z'"
  shows "nextTransition z' = nextTransition z"
  using assms by (rule run_round_Inr) simp

lemma rounds_next:
  assumes "rounds k z = Inr z'"
  shows "nextTransition z' = nextTransition z"
  using assms
proof (induction k arbitrary: z')
  case 0
  then show ?case by simp
next
  case (Suc k)
  then obtain y where y: "rounds k z = Inr y" and r: "run_round y = Inr z'"
    unfolding rounds_Suc_Inr by blast
  from Suc.IH[OF y] run_round_next[OF r] show ?case by simp
qed

lemma incBound_before_successor:
  assumes "holds m (incBound_before z idx)" and "j < getNbTransition (automaton z)"
    and "lastlyActiveFaultyPath m (idx - 1) = int j"
  shows "\<exists>n\<in>set (nextTransition z ! j). faultyPath m idx = int n"
proof -
  from assms(1) have "holds m (concat (map (\<lambda>j.
        [\<lambda>m. lastlyActiveFaultyPath m (idx - 1) = int j \<longrightarrow>
              z3_Or (map (\<lambda>n m. faultyPath m idx = int n) (nextTransition z ! j)) m,
         \<lambda>m. lastlyActiveNormalPath m (idx - 1) = int j \<longrightarrow>
              z3_Or (map (\<lambda>n m. normalPath m idx = int n) (nextTransition z ! j)) m])
        [0..<getNbTransition (automaton z)]))"
    by (simp add: incBound_before_def holds_append holds_def)
  then have "\<forall>j\<in>set [0..<getNbTransition (automaton z)]. holds m
        [\<lambda>m. lastlyActiveFaultyPath m (idx - 1) = int j \<longrightarrow>
              z3_Or (map (\<lambda>n m. faultyPath m idx = int n) (nextTransition z ! j)) m,
         \<lambda>m. lastlyActiveNormalPath m (idx - 1) = int j \<longrightarrow>
              z3_Or (map (\<lambda>n m. normalPath m idx = int n) (nextTransition z ! j)) m]"
    unfolding holds_concat by simp
  with assms(2) have "holds m
        [\<lambda>m. lastlyActiveFaultyPath m (idx - 1) = int j \<longrightarrow>
              z3_Or (map (\<lambda>n m. faultyPath m idx = int n) (nextTransition z ! j)) m,
         \<lambda>m. lastlyActiveNormalPath m (idx - 1) = int j \<longrightarrow>
              z3_Or (map (\<lambda>n m. normalPath m idx = int n) (nextTransition z ! j)) m]"
    by simp
  then have "lastlyActiveFaultyPath m (idx - 1) = int j \<longrightarrow>
              z3_Or (map (\<lambda>n m. faultyPath m idx = int n) (nextTransition z ! j)) m"
    by (simp add: holds_def)
  with assms(3) show ?thesis
    by (simp add: z3_Or_def list_ex_iff)
qed

lemma run_round_labels:
  assumes "run_round z = Inr z'" and "holds m (s z')" and "j < getNbTransition (automaton z)"
  shows "faultyPath m (lenPath z) = int j \<Longrightarrow>
           idTransitionFaultyPath m (lenPath z) = labelTransition m j"
proof -
  from assms(1) obtain css where
    css: "map_err (transition_constraints z (lenPath z)) [0..<getNbTransition (automaton z)] = Inr css"
    and z': "s z' = s z @ incBound_before z (lenPath z) @ concat css
                 @ step_constraints z (lenPath z) (lenPath z - 1) (lenPath z)
                 @ incBound_after (lenPath z)
                 @ [\<lambda>m. assumB m (idxAssum z + 1) \<longrightarrow> bound m = int (lenPath z + 1),
                    \<lambda>m. assumF m (idxAssum z + 1) \<longrightarrow>
                         cptFaultOccursByThePast m (lenPath z + 1) = real_of_int (DELTA z),
                    \<lambda>m. assumFO m (idxAssum z + 1) \<longrightarrow> faultOccursByThePast m (lenPath z) = True]"
    by (rule run_round_Inr) simp
  from assms(2) have "holds m (concat css)"
    by (simp add: z' holds_append)
  from transitions_label(1)[OF css this assms(3)]
  show "faultyPath m (lenPath z) = int j \<Longrightarrow>
           idTransitionFaultyPath m (lenPath z) = labelTransition m j" .
qed




lemma run_prelude_next [simp]: "nextTransition (run_prelude z) = nextTransition z"
  by (simp add: run_prelude_def)

text \<open>The faulty run at a step added by a round: a successor of the last active transition.\<close>

lemma query_step_path:
  assumes q: "query A BOUND' DELTA' k = Inr z" and h: "holds m (s z)"
    and i: "1 \<le> i" "i \<le> k"
    and j: "j < getNbTransition (automaton z)" "lastlyActiveFaultyPath m (i - 1) = int j"
  shows "\<exists>n<getNbTransition (automaton z).
           faultyPath m i = int n
         \<and> idTransitionFaultyPath m i = event (transitionList (automaton z) ! n)
         \<and> lastlyActiveFaultyPath m i = (if n = NOP_TRANSITION then int j else int n)"
proof -
  from q obtain zi where zi: "Z3Model_init A BOUND' DELTA' = Inr zi"
    and r: "rounds k (run_prelude zi) = Inr z"
    by (rule query_Inr)
  from i have "i - 1 < k" by simp
  from rounds_earlier[OF r this] obtain y y' where y: "rounds (i - 1) (run_prelude zi) = Inr y"
    and rr: "run_round y = Inr y'" and hy: "\<And>m. holds m (s z) \<Longrightarrow> holds m (s y')"
    by blast
  from rounds_frame[OF y] i Z3Model_init_fields(3)[OF zi]
  have fy: "lenPath y = i" "automaton y = automaton zi"
    by simp_all
  from rounds_next[OF y] have ny: "nextTransition y = nextTransition zi" by simp
  from rounds_frame[OF r] have fz: "automaton z = automaton zi" by simp
  from hy[OF h] have hy': "holds m (s y')" .
  from run_round_holds(2)[OF rr hy'] have before: "holds m (incBound_before y i)"
    by (simp add: fy)
  from j(1) have jy: "j < getNbTransition (automaton y)" by (simp add: fy fz)
  from incBound_before_successor[OF before jy j(2)] obtain n where
    n: "n \<in> set (nextTransition y ! j)" and fp: "faultyPath m i = int n"
    by blast
  from Z3Model_init_next[OF zi, of j n] j(1) n have nb: "n < getNbTransition (automaton z)"
    by (simp add: ny fz)
  from run_round_labels[OF rr hy', of n] nb fp
  have idt: "idTransitionFaultyPath m i = labelTransition m n"
    by (simp add: fy fz)
  from rounds_holds[OF r h] have "holds m (s (run_prelude zi))" .
  from run_prelude_holds(3)[OF this, of n] nb
  have lab: "labelTransition m n = event (transitionList (automaton z) ! n)"
    by (simp add: fz)
  from incBound_before_last_active(1,2)[OF before] fp j(2)
  have la: "lastlyActiveFaultyPath m i = (if n = NOP_TRANSITION then int j else int n)"
    by auto
  from nb fp idt lab la show ?thesis by auto
qed

lemma query_start_last_active:
  assumes q: "query A BOUND' DELTA' k = Inr z" and h: "holds m (s z)"
  shows "0 < getNbTransition (automaton z)"
    and "lastlyActiveFaultyPath m 0 = int (getNbTransition (automaton z) - 1)"
proof -
  from q obtain zi where zi: "Z3Model_init A BOUND' DELTA' = Inr zi"
    and r: "rounds k (run_prelude zi) = Inr z"
    by (rule query_Inr)
  from zi obtain zs css t where
    zi_eq: "zi = zs\<lparr>s := s zs @ initial_constraints zs @ concat css @ step_constraints zs 0 0 0,
            lenObservable := getNbTransition (automaton zs)\<rparr>"
    by (rule Z3Model_init_Inr)
  from rounds_frame[OF r] have az: "automaton z = automaton zs"
    by (simp add: zi_eq)
  from Z3Model_init_fields(6)[OF zi] show pos: "0 < getNbTransition (automaton z)"
    by (simp add: az zi_eq)
  from rounds_holds[OF r h] have hp: "holds m (s (run_prelude zi))" .
  from run_prelude_holds(1)[OF hp] have "holds m (initial_constraints zs)"
    by (simp add: zi_eq holds_append)
  then have "faultyPath m 0 = int (getNbTransition (automaton zs)) - 1"
    "faultyPath m 0 = lastlyActiveFaultyPath m 0"
    by (simp_all add: initial_constraints_def holds_append holds_def)
  with pos show "lastlyActiveFaultyPath m 0 = int (getNbTransition (automaton z) - 1)"
    by (simp add: az)
qed

text \<open>
  If no transition of the input is labelled FAULT, no model of any query lets a fault
  occur: the faulty run only takes transitions of the automaton.
\<close>

lemma no_fault_transition:
  assumes q: "query A BOUND' DELTA' k = Inr z" and h: "holds m (s z)"
    and nf: "\<forall>t\<in>set (transitionList A). event t \<noteq> FAULT" and "i \<le> k"
  shows "\<not> faultOccursByThePast m i
       \<and> (\<exists>j<getNbTransition (automaton z). lastlyActiveFaultyPath m i = int j)"
  using assms(4)
proof (induction i)
  case 0
  from query_step0(4)[OF q h] query_start_last_active[OF q h] show ?case
    by (intro conjI exI[of _ "getNbTransition (automaton z) - 1"]) simp_all
next
  case (Suc i)
  then have ik: "i \<le> k" and le: "1 \<le> Suc i" "Suc i \<le> k" by simp_all
  from Suc.IH[OF ik] obtain j where nfo: "\<not> faultOccursByThePast m i"
    and j: "j < getNbTransition (automaton z)" "lastlyActiveFaultyPath m i = int j"
    by blast
  from j(2) have j': "lastlyActiveFaultyPath m (Suc i - 1) = int j" by simp
  from query_step_path[OF q h le j(1) j'] obtain n where
    n: "n < getNbTransition (automaton z)"
    and idt: "idTransitionFaultyPath m (Suc i) = event (transitionList (automaton z) ! n)"
    and la: "lastlyActiveFaultyPath m (Suc i) = (if n = NOP_TRANSITION then int j else int n)"
    by blast
  from q h obtain t where tl: "transitionList (automaton z) = transitionList A @ [t]"
    and ev: "event t = 2"
    by (rule query_start)
  from n have "transitionList (automaton z) ! n \<in> set (transitionList (automaton z))"
    by (simp add: getNbTransition_def)
  with nf ev have "event (transitionList (automaton z) ! n) \<noteq> FAULT"
    by (auto simp: tl FAULT_def)
  with idt have nofault: "idTransitionFaultyPath m (Suc i) \<noteq> FAULT" by simp
  from query_step(2)[OF q h le] have "holds m (incBound_after (Suc i))" .
  from incBound_after_fault(1)[OF this] nfo nofault
  have 1: "\<not> faultOccursByThePast m (Suc i)" by simp
  from la j(1) n have 2: "\<exists>j<getNbTransition (automaton z). lastlyActiveFaultyPath m (Suc i) = int j"
    by (cases "n = NOP_TRANSITION") auto
  from 1 2 show ?case by blast
qed

text \<open>The assumption literal of the last round fixes the last fault counter to DELTA.\<close>

lemma query_counter_is_delta:
  assumes q: "query A BOUND' DELTA' (Suc k) = Inr z" and a: "answers m z"
  shows "cptFaultOccursByThePast m (k + 2) = real_of_int DELTA'"
proof -
  from a have h: "holds m (s z)" and la: "holds m (listAssum z)"
    by (simp_all add: answers_def)
  from q obtain zi where zi: "Z3Model_init A BOUND' DELTA' = Inr zi"
    and r: "rounds (Suc k) (run_prelude zi) = Inr z"
    by (rule query_Inr)
  from r obtain y where y: "rounds k (run_prelude zi) = Inr y" and rr: "run_round y = Inr z"
    unfolding rounds_Suc_Inr by blast
  from la have "assumF m (idxAssum z)"
    by (simp add: listAssum_def holds_def)
  with run_round_holds(6)[OF rr h]
  have "cptFaultOccursByThePast m (lenPath z) = real_of_int (DELTA z)" by simp
  moreover from query_step0(7,9)[OF q h] have "lenPath z = k + 2" "DELTA z = DELTA'"
    by simp_all
  ultimately show ?thesis by simp
qed

text \<open>
  So for an automaton without a fault transition and DELTA other than 0, no query has
  a model: a sound solver never answers sat.
\<close>

lemma no_fault_transition_unsat:
  assumes q: "query A BOUND' DELTA' (Suc k) = Inr z" and a: "answers m z"
    and nf: "\<forall>t\<in>set (transitionList A). event t \<noteq> FAULT"
  shows "DELTA' = 0"
proof -
  from a have h: "holds m (s z)" by (simp add: answers_def)
  have le: "1 \<le> Suc k" "Suc k \<le> Suc k" by simp_all
  from no_fault_transition[OF q h nf le(2)] have "\<not> faultOccursByThePast m (Suc k)" by blast
  with incBound_after_fault(3)[OF query_step(2)[OF q h le]]
  have "cptFaultOccursByThePast m (k + 2) = 0" by simp
  with query_counter_is_delta[OF q a] show ?thesis by simp
qed




subsection \<open>The driver past the transition count\<close>

lemma example_init_delta:
  "\<exists>A z0. example_automaton = Inr A \<and> Z3Model_init A 3 1 = Inr z0
     \<and> getNbTransition (automaton z0) = 3
     \<and> (\<forall>t\<in>set (transitionList A). event t \<noteq> FAULT)"
proof -
  have "case example_automaton of
          Inl e \<Rightarrow> False
        | Inr A \<Rightarrow> (case Z3Model_init A 3 1 of
                      Inl e \<Rightarrow> False
                    | Inr z \<Rightarrow> getNbTransition (automaton z) = 3
                               \<and> list_all (\<lambda>t. event t \<noteq> FAULT) (transitionList A))"
    by code_simp
  from sum_case_Inr[OF this] obtain A where A: "example_automaton = Inr A"
    and Q: "case Z3Model_init A 3 1 of
                      Inl e \<Rightarrow> False
                    | Inr z \<Rightarrow> getNbTransition (automaton z) = 3
                               \<and> list_all (\<lambda>t. event t \<noteq> FAULT) (transitionList A)"
    by blast
  from sum_case_Inr[OF Q] A show ?thesis by (auto simp: list_all_iff)
qed

text \<open>
  Claim C9 on the small input with BOUND = 3 and DELTA = 1. The automaton has no fault
  transition, so no query has a model and a sound solver never answers sat. run prints
  "Increase the bound" for the horizons 2 and 3, and in the third round, the step index
  having reached the number of transitions of the preprocessed automaton (3), the encoder
  raises IndexError: run does not go on until BOUND is exhausted and does not report
  UNSAT.
\<close>

theorem run_crashes_before_bound_exhausted:
  assumes "sound check"
  shows "snd (example_main check 3 1) = Raised IndexError"
proof -
  from example_init_delta obtain A z0 where ex: "example_automaton = Inr A"
    and z0: "Z3Model_init A 3 1 = Inr z0" and nb: "getNbTransition (automaton z0) = 3"
    and nf: "\<forall>t\<in>set (transitionList A). event t \<noteq> FAULT"
    by blast
  have m: "example_main check 3 1 = run check z0"
    by (simp add: example_main_def ex main_def z0)
  from nb have big: "int (getNbTransition (automaton z0)) \<le> 3" by simp
  note rb = run_beyond[OF z0 big, of check]
  show ?thesis
  proof (cases "snd (run check z0)")
    case (ReportedSat m' c)
    then have "run check z0 = (fst (run check z0), ReportedSat m' c)"
      by (cases "run check z0") simp
    from run_reported_model[OF assms z0 this] obtain k z' where
      "query A 3 1 (Suc k) = Inr z'" "answers m' z'"
      by blast
    from no_fault_transition_unsat[OF this nf] show ?thesis by simp
  next
    case ReportedUnsat
    with rb(1) show ?thesis by simp
  next
    case (Raised e)
    with rb(2)[of e] show ?thesis by (simp add: m)
  qed
qed

theorem run_crashes_before_bound_exhausted_witness:
  "sound (\<lambda>cs as. unsat) \<and> example_main (\<lambda>cs as. unsat) 3 1 = ([2, 3], Raised IndexError)"
proof -
  have s: "sound (\<lambda>cs as. unsat)" by (simp add: sound_def)
  have "case example_main (\<lambda>cs as. unsat) 3 1 of (printed, v) \<Rightarrow> printed = [2, 3]"
    by code_simp
  then have "fst (example_main (\<lambda>cs as. unsat) 3 1) = [2, 3]"
    by (cases "example_main (\<lambda>cs as. unsat) 3 1") simp
  with run_crashes_before_bound_exhausted[OF s]
  have "example_main (\<lambda>cs as. unsat) 3 1 = ([2, 3], Raised IndexError)"
    by (cases "example_main (\<lambda>cs as. unsat) 3 1") simp
  with s show ?thesis by simp
qed




text \<open>
  Below the transition count the loop does what the driver is meant to do: with a solver
  that never answers sat (unsat and unknown are treated alike) it runs BOUND rounds,
  prints "Increase the bound" once per round with the horizons 2, 3, ..., BOUND + 1, and
  reports UNSAT.
\<close>

lemma run_loop_within:
  assumes "\<And>pos. \<not> isl (map_err (transition_constraints z pos) [0..<getNbTransition (automaton z)])"
    and "0 < lenPath z" and "cpt = int (lenPath z)"
    and "BOUND z < int (lenObservable z)"
    and "\<And>cs as m. check cs as \<noteq> sat m"
  shows "run_loop check z cpt = (map Suc [lenPath z..<nat (BOUND z) + 1], ReportedUnsat)"
  using assms
proof (induction check z cpt rule: run_loop.induct)
  case (1 check z cpt)
  note unf = run_loop.simps[of check z cpt]
  show ?case
  proof (cases "cpt \<le> BOUND z")
    case False
    with "1.prems"(2,3) have "[lenPath z..<nat (BOUND z) + 1] = []" by simp
    with False show ?thesis by (simp add: unf)
  next
    case le: True
    with "1.prems"(3,4) have lt: "lenPath z < lenObservable z" by simp
    from run_round_total[OF "1.prems"(1,2) lt] obtain b where b: "run_round z = Inr b" ..
    from run_round_frame[OF b] run_round_BOUND_frame[OF b] run_round_transition_constraints[OF b]
    have fr: "lenPath b = lenPath z + 1" "automaton b = automaton z"
      "lenObservable b = lenObservable z" "BOUND b = BOUND z"
      "transition_constraints b = transition_constraints z"
      by simp_all
    have pre: "\<And>pos. \<not> isl (map_err (transition_constraints b pos) [0..<getNbTransition (automaton b)])"
      "0 < lenPath b" "cpt + 1 = int (lenPath b)" "BOUND b < int (lenObservable b)"
      "\<And>cs as m. check cs as \<noteq> sat m"
      using "1.prems" by (simp_all add: fr)
    from le "1.prems"(3) have "lenPath z < nat (BOUND z) + 1" by arith
    then have up: "[lenPath z..<Suc (nat (BOUND z))]
        = lenPath z # [Suc (lenPath z)..<Suc (nat (BOUND z))]"
      by (simp add: upt_conv_Cons del: upt_Suc)
    show ?thesis
    proof (cases "check (s b) (listAssum b)")
      case (sat m)
      with "1.prems"(5) show ?thesis by blast
    next
      case unsat
      from "1.IH"(1)[OF le b unsat pre]
      have "run_loop check b (cpt + 1) = (map Suc [lenPath z + 1..<nat (BOUND z) + 1], ReportedUnsat)"
        by (simp add: fr)
      with le b unsat show ?thesis
        by (simp add: unf fr up del: upt_Suc)
    next
      case unknown
      from "1.IH"(2)[OF le b unknown pre]
      have "run_loop check b (cpt + 1) = (map Suc [lenPath z + 1..<nat (BOUND z) + 1], ReportedUnsat)"
        by (simp add: fr)
      with le b unknown show ?thesis
        by (simp add: unf fr up del: upt_Suc)
    qed
  qed
qed

lemma run_within:
  assumes "Z3Model_init A BOUND' DELTA' = Inr z"
    and "BOUND' < int (getNbTransition (automaton z))"
    and "\<And>cs as m. check cs as \<noteq> sat m"
  shows "run check z = (map Suc [1..<nat BOUND' + 1], ReportedUnsat)"
proof -
  note f = Z3Model_init_fields[OF assms(1)]
  have "run_loop check (run_prelude z) 1
          = (map Suc [lenPath (run_prelude z)..<nat (BOUND (run_prelude z)) + 1], ReportedUnsat)"
  proof (rule run_loop_within)
    show "\<not> isl (map_err (transition_constraints (run_prelude z) pos)
             [0..<getNbTransition (automaton (run_prelude z))])" for pos
      using Z3Model_init_loop_ok[OF assms(1), of pos] by simp
    show "0 < lenPath (run_prelude z)" by (simp add: f)
    show "1 = int (lenPath (run_prelude z))" by (simp add: f)
    show "BOUND (run_prelude z) < int (lenObservable (run_prelude z))"
      using assms(2) by (simp add: f)
    show "check cs as \<noteq> sat m" for cs as m by (rule assms(3))
  qed
  then show ?thesis by (simp add: run_def f)
qed


end
